theory Spec2Isabelle
  imports Complex_Main "HOL-Library.Log_Nat"
begin

section \<open>Python values used by the modelled handlers\<close>

text \<open>
  The sources are Python 2 (\<^verbatim>\<open>dict.keys()\<close> is indexed, \<^verbatim>\<open>iteritems\<close> is used).
  An exception that leaves a handler is a value of \<open>error\<close>. A handler works on
  global dictionaries and widgets, and an exception does not undo what the handler
  wrote before it: \<open>Raised e s\<close> carries the state \<open>s\<close> as it stands at the raise.
\<close>

datatype error =
  ValueError | IndexError | KeyError | TypeError | AttributeError
  | UnboundLocalError | ZeroDivisionError | OSError

datatype 's outcome = Returned 's | Raised error 's

fun state_of :: "'s outcome \<Rightarrow> 's" where
  "state_of (Returned s) = s"
| "state_of (Raised e s) = s"

fun raised :: "'s outcome \<Rightarrow> error option" where
  "raised (Returned s) = None"
| "raised (Raised e s) = Some e"

subsection \<open>Strings\<close>

text \<open>\<^verbatim>\<open>s.lower()\<close> on a byte string: the ASCII capitals only.\<close>

definition char_lower :: "char \<Rightarrow> char" where
  "char_lower c =
     (case map_of (zip ''ABCDEFGHIJKLMNOPQRSTUVWXYZ'' ''abcdefghijklmnopqrstuvwxyz'') c of
        Some d \<Rightarrow> d
      | None \<Rightarrow> c)"

definition lower :: "string \<Rightarrow> string" where
  "lower s = map char_lower s"

fun startswith :: "string \<Rightarrow> string \<Rightarrow> bool" where
  "startswith s [] = True"
| "startswith [] (p # ps) = False"
| "startswith (c # cs) (p # ps) = (c = p \<and> startswith cs ps)"

text \<open>\<^verbatim>\<open>p in s\<close> for two strings: \<open>p\<close> occurs in \<open>s\<close> as a contiguous piece.\<close>

fun substr_in :: "string \<Rightarrow> string \<Rightarrow> bool" where
  "substr_in p [] = (p = [])"
| "substr_in p (c # cs) = (startswith (c # cs) p \<or> substr_in p cs)"

text \<open>
  \<^verbatim>\<open>s.split(sep)\<close> with a separator: the pieces between the occurrences of \<open>sep\<close>, read
  from the left without overlap; always at least one piece. Every call in the sources
  passes a literal, non-empty separator (Python raises on an empty one).
\<close>

function split_from :: "string \<Rightarrow> string \<Rightarrow> string \<Rightarrow> string list" where
  "split_from sep cur [] = [rev cur]"
| "split_from sep cur (c # cs) =
     (if sep \<noteq> [] \<and> startswith (c # cs) sep
      then rev cur # split_from sep [] (drop (length sep) (c # cs))
      else split_from sep (c # cur) cs)"
  by pat_completeness auto
termination
  by (relation "measure (\<lambda>(sep, cur, s). length s)") auto

definition py_split :: "string \<Rightarrow> string \<Rightarrow> string list" where
  "py_split sep s = split_from sep [] s"

text \<open>\<^verbatim>\<open>xs[i]\<close> for \<open>i \<ge> 0\<close> and \<^verbatim>\<open>xs[-1]\<close>: IndexError out of range.\<close>

definition item :: "'a list \<Rightarrow> nat \<Rightarrow> error + 'a" where
  "item xs i = (if i < length xs then Inr (xs ! i) else Inl IndexError)"

definition last_item :: "'a list \<Rightarrow> error + 'a" where
  "last_item xs = (if xs = [] then Inl IndexError else Inr (last xs))"

definition is_space :: "char \<Rightarrow> bool" where
  "is_space c = (c \<in> set [CHR '' '', CHR 0x09, CHR 0x0A, CHR 0x0B, CHR 0x0C, CHR 0x0D])"

definition strip :: "string \<Rightarrow> string" where
  "strip s = rev (dropWhile is_space (rev (dropWhile is_space s)))"

definition digit_of :: "char \<Rightarrow> int option" where
  "digit_of c = map_of (zip ''0123456789'' [0, 1, 2, 3, 4, 5, 6, 7, 8, 9]) c"

definition is_digit :: "char \<Rightarrow> bool" where
  "is_digit c = (digit_of c \<noteq> None)"

fun digits_value :: "int \<Rightarrow> string \<Rightarrow> int" where
  "digits_value acc [] = acc"
| "digits_value acc (c # cs) =
     digits_value (10 * acc + (case digit_of c of Some d \<Rightarrow> d | None \<Rightarrow> 0)) cs"

definition split_sign :: "string \<Rightarrow> bool \<times> string" where
  "split_sign s =
     (case s of
        [] \<Rightarrow> (False, [])
      | c # cs \<Rightarrow>
          if c = CHR ''-'' then (True, cs)
          else if c = CHR ''+'' then (False, cs)
          else (False, s))"

subsection \<open>Numbers\<close>

text \<open>
  \<^verbatim>\<open>int(s)\<close> on a string, base ten: surrounding white space is dropped, one sign is
  allowed, and the rest must be one or more digits.
\<close>

definition py_int :: "string \<Rightarrow> error + int" where
  "py_int s =
     (let (neg, ds) = split_sign (strip s) in
      if ds \<noteq> [] \<and> list_all is_digit ds
      then Inr (if neg then - digits_value 0 ds else digits_value 0 ds)
      else Inl ValueError)"

text \<open>
  A Python float is a binary64 number: here the rational it denotes, or one of the
  special values. Every operation that CPython rounds (reading a decimal numeral,
  multiplying, dividing) rounds here as IEEE 754 does, to the nearest binary64 number,
  ties to the even significand, overflow to infinity. \<open>exponent_of a\<close> is the binary
  exponent of a positive \<open>a\<close> (\<open>2 ^ e \<le> a < 2 ^ (e + 1)\<close>); the spacing of the binary64
  numbers around \<open>a\<close> is \<open>2 ^ (e - 52)\<close>, and \<open>2 ^ -1074\<close> below the normal range. The
  sign of a zero is not kept (\<open>-0.0\<close> is \<open>0\<close>).
\<close>

datatype pyfloat = Fl rat | Infty bool | NaN

definition pow2 :: "int \<Rightarrow> rat" where
  "pow2 k = (if 0 \<le> k then 2 ^ nat k else 1 / 2 ^ nat (- k))"

definition exponent_of :: "rat \<Rightarrow> int" where
  "exponent_of a =
     (let (p, q) = quotient_of a; d = bitlen p - bitlen q
      in if pow2 d \<le> a then d else d - 1)"

definition round_half_even :: "rat \<Rightarrow> int" where
  "round_half_even r =
     (let n = \<lfloor>r\<rfloor>; rest = r - of_int n
      in if rest < 1 / 2 then n
         else if 1 / 2 < rest then n + 1
         else if even n then n else n + 1)"

definition binary64 :: "rat \<Rightarrow> pyfloat" where
  "binary64 r =
     (if r = 0 then Fl 0
      else
        (let a = \<bar>r\<bar>;
             ulp = pow2 (max (exponent_of a) (- 1022) - 52);
             m = of_int (round_half_even (a / ulp)) * ulp
         in if 1023 < exponent_of m then Infty (0 < r)
            else Fl (if r < 0 then - m else m)))"

definition parse_mantissa :: "string \<Rightarrow> rat option" where
  "parse_mantissa m =
     (let ip = takeWhile is_digit m; rest = dropWhile is_digit m in
      case rest of
        [] \<Rightarrow> if ip = [] then None else Some (of_int (digits_value 0 ip))
      | c # fp \<Rightarrow>
          if c = CHR ''.'' \<and> list_all is_digit fp \<and> (ip \<noteq> [] \<or> fp \<noteq> [])
          then Some (of_int (digits_value 0 ip) + of_int (digits_value 0 fp) / 10 ^ length fp)
          else None)"

definition is_exp_mark :: "char \<Rightarrow> bool" where
  "is_exp_mark c = (c = CHR ''e'' \<or> c = CHR ''E'')"

definition parse_decimal :: "string \<Rightarrow> rat option" where
  "parse_decimal t =
     (let m = takeWhile (\<lambda>c. \<not> is_exp_mark c) t; rest = dropWhile (\<lambda>c. \<not> is_exp_mark c) t in
      case parse_mantissa m of
        None \<Rightarrow> None
      | Some v \<Rightarrow>
          (case rest of
             [] \<Rightarrow> Some v
           | e # ex \<Rightarrow>
               (let (neg, ds) = split_sign ex in
                if ds \<noteq> [] \<and> list_all is_digit ds
                then Some (if neg then v / 10 ^ nat (digits_value 0 ds)
                           else v * 10 ^ nat (digits_value 0 ds))
                else None)))"

text \<open>
  \<^verbatim>\<open>float(s)\<close> on a string: white space around it is dropped, one sign is allowed, then
  \<^verbatim>\<open>inf\<close>, \<^verbatim>\<open>infinity\<close> or \<^verbatim>\<open>nan\<close> in any case, or a decimal numeral with an optional
  fraction and exponent, rounded to binary64; anything else is a ValueError.
\<close>

definition py_float :: "string \<Rightarrow> error + pyfloat" where
  "py_float s =
     (let (neg, t) = split_sign (strip s) in
      if lower t = ''inf'' \<or> lower t = ''infinity'' then Inr (Infty (\<not> neg))
      else if lower t = ''nan'' then Inr NaN
      else (case parse_decimal t of
              None \<Rightarrow> Inl ValueError
            | Some v \<Rightarrow> Inr (binary64 (if neg then - v else v))))"

fun fl_mul :: "pyfloat \<Rightarrow> pyfloat \<Rightarrow> pyfloat" where
  "fl_mul (Fl a) (Fl b) = binary64 (a * b)"
| "fl_mul NaN y = NaN"
| "fl_mul x NaN = NaN"
| "fl_mul (Infty p) (Fl b) = (if b = 0 then NaN else Infty (p = (0 < b)))"
| "fl_mul (Fl a) (Infty q) = (if a = 0 then NaN else Infty (q = (0 < a)))"
| "fl_mul (Infty p) (Infty q) = Infty (p = q)"

text \<open>\<^verbatim>\<open>x / y\<close> on floats: a zero divisor raises whatever the dividend is.\<close>

fun fl_div :: "pyfloat \<Rightarrow> pyfloat \<Rightarrow> error + pyfloat" where
  "fl_div x (Fl b) =
     (if b = 0 then Inl ZeroDivisionError
      else Inr (case x of Fl a \<Rightarrow> binary64 (a / b) | Infty p \<Rightarrow> Infty (p = (0 < b)) | NaN \<Rightarrow> NaN))"
| "fl_div x NaN = Inr NaN"
| "fl_div x (Infty q) = Inr (case x of Fl a \<Rightarrow> Fl 0 | Infty p \<Rightarrow> NaN | NaN \<Rightarrow> NaN)"

section \<open>The state the handlers share\<close>

text \<open>
  \<^verbatim>\<open>DSPH.py\<close> keeps everything in two global dictionaries, \<^verbatim>\<open>data\<close> and
  \<^verbatim>\<open>temp_data\<close>, and in module-level widgets. The record has one field for each entry
  and widget that the modelled handlers read or write, under the source's name. A widget
  is the value it shows. \<open>on_cancel_connections\<close> is the number of \<^verbatim>\<open>on_cancel\<close>
  closures connected to the \<^verbatim>\<open>clicked\<close> signal of the cancel button. \<open>calls\<close> logs,
  oldest first, the calls made on the objects the script does not own: the external
  processes and the file system watcher.
\<close>

datatype mkvalue = MkNumber int | MkText string

type_synonym simobject = "mkvalue \<times> string \<times> string"

datatype process_ref = NoProcess | EmptyText | Process

datatype title = Title string | TitlePercent pyfloat

datatype call = Kill | RemovePath string | Start string "string list"

record state =
  simobjects :: "(string \<times> simobject) list"
  export_order :: "string list"
  timemax :: pyfloat
  total_particles_out :: int
  simulation_done :: bool
  additional_parameters :: string
  export_options :: string
  project_path :: string
  project_name :: string
  dsphysics_path :: string
  partvtk4_path :: string
  current_process :: process_ref
  current_export_process :: process_ref
  total_export_parts :: int
  run_progbar_bar :: pyfloat
  run_dialog_title :: title
  run_dialog_shown :: bool
  run_button_cancel :: string
  run_group_label_eta :: string
  run_group_label_partsout :: int
  execution_error_dialog :: "string option"
  widget_state :: string
  export_button :: string
  export_progbar_range :: int
  export_dialog_shown :: bool
  on_cancel_connections :: nat
  run_watcher :: "string list"
  calls :: "call list"

text \<open>
  A case as \<^verbatim>\<open>on_new_case\<close> leaves it, used where a theorem needs a concrete state.
  The defaults come from \<^verbatim>\<open>utils.get_default_data\<close>, which is not among the sources;
  \<open>timemax\<close> starts at \<open>-1\<close>, the value \<^verbatim>\<open>on_fs_change\<close> tests for.
\<close>

definition new_case :: state where
  "new_case =
     \<lparr> simobjects = [(''Case_Limits'', (MkText ''mkspecial'', ''typespecial'', ''fillspecial''))],
       export_order = [''Case_Limits''],
       timemax = Fl (- 1),
       total_particles_out = 0,
       simulation_done = False,
       additional_parameters = [],
       export_options = [],
       project_path = ''/home/user/dam'',
       project_name = ''dam'',
       dsphysics_path = ''/opt/dsph/DualSPHysics_linux64'',
       partvtk4_path = ''/opt/dsph/PartVTK4_linux64'',
       current_process = NoProcess,
       current_export_process = NoProcess,
       total_export_parts = 0,
       run_progbar_bar = Fl 0,
       run_dialog_title = Title ''DualSPHysics Simulation: 0%'',
       run_dialog_shown = False,
       run_button_cancel = ''Cancel Simulation'',
       run_group_label_eta = ''Estimated time to complete simulation: Calculating...'',
       run_group_label_partsout = 0,
       execution_error_dialog = None,
       widget_state = ''new case'',
       export_button = ''Export data to VTK'',
       export_progbar_range = 100,
       export_dialog_shown = False,
       on_cancel_connections = 0,
       run_watcher = [],
       calls = [] \<rparr>"

definition out_dir :: "state \<Rightarrow> string" where
  "out_dir s = project_path s @ ''/'' @ project_name s @ ''_Out/''"

section \<open>Run monitor: the log reader\<close>

text \<open>
  The first loop of \<^verbatim>\<open>on_fs_change\<close>: while \<open>timemax\<close> is \<open>-1\<close>, a line holding
  \<^verbatim>\<open>TimeMax=\<close> sets it to the float after the first \<^verbatim>\<open>=\<close>.
\<close>

fun timemax_loop :: "string list \<Rightarrow> state \<Rightarrow> state outcome" where
  "timemax_loop [] s = Returned s"
| "timemax_loop (l # ls) s =
     (if timemax s = Fl (- 1) \<and> substr_in ''TimeMax='' l
      then (case item (py_split ''='' l) 1 of
              Inl e \<Rightarrow> Raised e s
            | Inr t \<Rightarrow>
                (case py_float t of
                   Inl e \<Rightarrow> Raised e s
                 | Inr v \<Rightarrow> timemax_loop ls (s\<lparr>timemax := v\<rparr>)))
      else timemax_loop ls s)"

text \<open>
  \<^verbatim>\<open>current_value\<close>: the text after the last blank of the piece before the first dot,
  a dot, and two characters of the piece after it, as a float, times 100, divided by
  \<open>timemax\<close>. The operands are evaluated from the left, so a missing second piece
  (IndexError) comes before a text that is no float (ValueError), and the division is
  last.
\<close>

definition current_value :: "string list \<Rightarrow> pyfloat \<Rightarrow> error + pyfloat" where
  "current_value last_line_parttime tmax =
     (case last_item (py_split '' '' (hd last_line_parttime)) of
        Inl e \<Rightarrow> Inl e
      | Inr whole \<Rightarrow>
          (case item last_line_parttime 1 of
             Inl e \<Rightarrow> Inl e
           | Inr decimals \<Rightarrow>
               (case py_float (whole @ ''.'' @ take 2 decimals) of
                  Inl e \<Rightarrow> Inl e
                | Inr x \<Rightarrow> fl_div (fl_mul x (Fl 100)) tmax)))"

definition update_eta :: "string \<Rightarrow> state \<Rightarrow> state" where
  "update_eta last_line s =
     (let last_line_time = last (py_split ''  '' last_line) in
      if \<not> substr_in ''==='' last_line_time \<and> \<not> substr_in ''CellDiv'' last_line_time
         \<and> \<not> substr_in ''memory'' last_line_time \<and> substr_in ''-'' last_line_time
      then s\<lparr>run_group_label_eta := ''Estimated time to complete simulation: '' @ last_line_time\<rparr>
      else s)"

definition update_partsout :: "string \<Rightarrow> state \<Rightarrow> state outcome" where
  "update_partsout last_line s =
     (case item (py_split ''(total: '' last_line) 1 of
        Inl e \<Rightarrow> Raised e s
      | Inr t \<Rightarrow>
          (case py_int (hd (py_split '')'' t)) of
             Inl e \<Rightarrow> Raised e s
           | Inr totalpartsout \<Rightarrow>
               Returned (s\<lparr>total_particles_out := totalpartsout,
                           run_group_label_partsout := totalpartsout\<rparr>)))"

text \<open>
  \<^verbatim>\<open>on_fs_change\<close>. The argument is what reading \<^verbatim>\<open>Run.out\<close> gave: \<open>Some\<close> of the
  lines of \<^verbatim>\<open>readlines()\<close> (each with its line end), or \<open>None\<close> when \<^verbatim>\<open>open\<close> or
  \<^verbatim>\<open>readlines\<close> raised. The \<^verbatim>\<open>except\<close> branch only logs, so after a failed read the
  local \<^verbatim>\<open>run_file_data\<close> was never assigned and the \<^verbatim>\<open>for\<close> statement that reads it
  raises UnboundLocalError.
\<close>

definition on_fs_change :: "string list option \<Rightarrow> state \<Rightarrow> state outcome" where
  "on_fs_change run_out s =
     (case run_out of
        None \<Rightarrow> Raised UnboundLocalError s
      | Some run_file_data \<Rightarrow>
          (case timemax_loop run_file_data s of
             Raised e s1 \<Rightarrow> Raised e s1
           | Returned s1 \<Rightarrow>
               (case last_item run_file_data of
                  Inl e \<Rightarrow> Raised e s1
                | Inr last_line \<Rightarrow>
                    if substr_in ''Part_'' last_line then
                      (let last_line_parttime = py_split ''.'' last_line in
                       if substr_in ''Part_'' (hd last_line_parttime) then
                         (case current_value last_line_parttime (timemax s1) of
                            Inl e \<Rightarrow> Raised e s1
                          | Inr v \<Rightarrow>
                              Returned (update_eta last_line
                                (s1\<lparr>run_progbar_bar := v, run_dialog_title := TitlePercent v\<rparr>)))
                       else Returned (update_eta last_line s1))
                    else if substr_in ''Particles out:'' last_line then update_partsout last_line s1
                    else Returned s1)))"

section \<open>Object registry\<close>

text \<open>
  The host document, as far as the handlers read it: the objects of
  \<^verbatim>\<open>FreeCAD.getDocument("DSPH_Case")\<close>, each with its \<^verbatim>\<open>Name\<close> and its \<^verbatim>\<open>InList\<close>
  (the names of the objects that hold it; empty for a top-level object).
  \<^verbatim>\<open>getObject(name)\<close> is the object of that name, or \<^verbatim>\<open>None\<close>.
\<close>

record fcobject =
  Name :: string
  InList :: "string list"

type_synonym document = "fcobject list"

definition objectNames :: "document \<Rightarrow> string list" where
  "objectNames doc = map Name doc"

definition getObject :: "document \<Rightarrow> string \<Rightarrow> fcobject option" where
  "getObject doc name = find (\<lambda>obj. Name obj = name) doc"

text \<open>
  \<^verbatim>\<open>data['simobjects']\<close> is a dictionary, here the list of its items; \<^verbatim>\<open>keys()\<close> is a
  fresh list of the keys (Python 2 fixes no order for it; the model takes the order of
  the items). \<^verbatim>\<open>pop(key, None)\<close> drops the key and never raises; \<^verbatim>\<open>list.remove(x)\<close>
  drops the first \<open>x\<close> and raises ValueError when there is none.
\<close>

definition keys :: "('k \<times> 'v) list \<Rightarrow> 'k list" where
  "keys d = map fst d"

definition pop :: "'k \<Rightarrow> ('k \<times> 'v) list \<Rightarrow> ('k \<times> 'v) list" where
  "pop key d = filter (\<lambda>kv. fst kv \<noteq> key) d"

text \<open>
  ``Detect object deletion'': every key of \<open>simobjects\<close> that is no object name is
  popped, then removed from \<open>export_order\<close>.
\<close>

fun detect_deletion :: "string list \<Rightarrow> string list \<Rightarrow> state \<Rightarrow> state outcome" where
  "detect_deletion names [] s = Returned s"
| "detect_deletion names (key # rest) s =
     (if key \<notin> set names then
        (let s1 = s\<lparr>simobjects := pop key (simobjects s)\<rparr> in
         if key \<in> set (export_order s1)
         then detect_deletion names rest (s1\<lparr>export_order := remove1 key (export_order s1)\<rparr>)
         else Raised ValueError s1)
      else detect_deletion names rest s)"

text \<open>
  The selection decides what the property widgets show; one branch leaves the handler:
  a single selected object named \<^verbatim>\<open>Case_Limits\<close>. The other branches only read
  \<open>simobjects\<close> and set widgets that are not part of the state.
\<close>

definition case_limits_selected :: "fcobject list \<Rightarrow> bool" where
  "case_limits_selected selection =
     (length selection = 1 \<and> Name (hd selection) = ''Case_Limits'')"

text \<open>
  The table loop \<^verbatim>\<open>for key in data["export_order"]\<close>, with the list iterator's index
  \<open>i\<close>: the loop removes from the list it walks, and after a removal the index still
  moves on by one. \<open>parented\<close> is \<^verbatim>\<open>objectsWithParent\<close>. The rows of the table are not
  part of the state.
\<close>

function order_loop :: "document \<Rightarrow> nat \<Rightarrow> string list \<Rightarrow> string list \<Rightarrow> string list \<times> string list" where
  "order_loop doc i order parented =
     (if i < length order then
        (case getObject doc (order ! i) of
           None \<Rightarrow> order_loop doc (Suc i) (remove1 (order ! i) order) parented
         | Some contextObject \<Rightarrow>
             if InList contextObject \<noteq> []
             then order_loop doc (Suc i) order (parented @ [Name contextObject])
             else order_loop doc (Suc i) order parented)
      else (order, parented))"
  by pat_completeness auto
termination
  by (relation "measure (\<lambda>(doc, i, order, parented). length order - i)")
     (auto simp: length_remove1)

fun drop_parented :: "string list \<Rightarrow> state \<Rightarrow> state outcome" where
  "drop_parented [] s = Returned s"
| "drop_parented (each # rest) s =
     (let s1 = s\<lparr>simobjects := pop each (simobjects s)\<rparr> in
      if each \<in> set (export_order s1)
      then drop_parented rest (s1\<lparr>export_order := remove1 each (export_order s1)\<rparr>)
      else Raised ValueError s1)"

definition on_tree_item_selection_change ::
    "document \<Rightarrow> fcobject list \<Rightarrow> state \<Rightarrow> state outcome" where
  "on_tree_item_selection_change doc selection s =
     (case detect_deletion (objectNames doc) (keys (simobjects s)) s of
        Raised e s1 \<Rightarrow> Raised e s1
      | Returned s1 \<Rightarrow>
          if case_limits_selected selection then Returned s1
          else
            (let s2 = (if length (export_order s1) = 0
                       then s1\<lparr>export_order := keys (simobjects s1)\<rparr> else s1);
                 (order, parented) = order_loop doc 0 (export_order s2) []
             in drop_parented parented (s2\<lparr>export_order := order\<rparr>)))"

text \<open>
  \<^verbatim>\<open>on_cell_click(row, column)\<close>: column 1 moves the entry of table row \<open>row\<close> (index
  \<open>row + 1\<close> of \<open>export_order\<close>) up, column 2 moves it down; both rebuild the list
  around the neighbour, then the handler above runs.
\<close>

fun order_up :: "string \<Rightarrow> string \<Rightarrow> string list \<Rightarrow> string list" where
  "order_up prev_elem curr_elem [] = []"
| "order_up prev_elem curr_elem (element # rest) =
     (if element = prev_elem then [curr_elem] else [])
       @ element # order_up prev_elem curr_elem rest"

fun order_down :: "string \<Rightarrow> string \<Rightarrow> string list \<Rightarrow> string list" where
  "order_down next_elem curr_elem [] = []"
| "order_down next_elem curr_elem (element # rest) =
     element # (if element = next_elem then [curr_elem] else [])
       @ order_down next_elem curr_elem rest"

definition on_cell_click ::
    "document \<Rightarrow> fcobject list \<Rightarrow> nat \<Rightarrow> nat \<Rightarrow> state \<Rightarrow> state outcome" where
  "on_cell_click doc selection row column s =
     (if \<not> row + 1 < length (keys (simobjects s)) then Raised IndexError s
      else if column = 1 then
        (if \<not> row + 1 < length (export_order s) then Raised IndexError s
         else
           (let curr_elem = export_order s ! (row + 1);
                prev_elem = export_order s ! row
            in on_tree_item_selection_change doc selection
                 (s\<lparr>export_order := order_up prev_elem curr_elem (remove1 curr_elem (export_order s))\<rparr>)))
      else if column = 2 then
        (if \<not> row + 2 < length (export_order s) then Raised IndexError s
         else
           (let curr_elem = export_order s ! (row + 1);
                next_elem = export_order s ! (row + 2)
            in on_tree_item_selection_change doc selection
                 (s\<lparr>export_order := order_down next_elem curr_elem (remove1 curr_elem (export_order s))\<rparr>)))
      else on_tree_item_selection_change doc selection s)"

text \<open>
  The state the registry is meant to be in: no identifier twice, and \<open>export_order\<close>
  holds exactly the keys of \<open>simobjects\<close>. \<^verbatim>\<open>add_object_to_sim\<close> and
  \<^verbatim>\<open>remove_object_from_sim\<close> add to and remove from both.
\<close>

definition consistent :: "state \<Rightarrow> bool" where
  "consistent s =
     (distinct (keys (simobjects s)) \<and> distinct (export_order s)
      \<and> set (export_order s) = set (keys (simobjects s)))"

definition live :: "document \<Rightarrow> string \<Rightarrow> bool" where
  "live doc k = (k \<in> set (objectNames doc))"

definition has_parent :: "document \<Rightarrow> string \<Rightarrow> bool" where
  "has_parent doc k =
     (case getObject doc k of None \<Rightarrow> False | Some obj \<Rightarrow> InList obj \<noteq> [])"

text \<open>What one run of the selection handler keeps of a consistent registry.\<close>

definition kept :: "document \<Rightarrow> fcobject list \<Rightarrow> string \<Rightarrow> bool" where
  "kept doc selection k =
     (live doc k \<and> (case_limits_selected selection \<or> \<not> has_parent doc k))"

text \<open>
  Concrete registries and documents for the examples: \<open>registry ks order\<close> is the new
  case with the keys \<open>ks\<close> in \<open>simobjects\<close> and \<open>order\<close> as \<open>export_order\<close>;
  \<open>toplevel\<close> is an object without a parent, \<open>child\<close> one inside another object.
\<close>

definition registry :: "string list \<Rightarrow> string list \<Rightarrow> state" where
  "registry ks order =
     new_case\<lparr>simobjects := map (\<lambda>k. (k, (MkNumber 0, ''bound'', ''full''))) ks,
              export_order := order\<rparr>"

definition toplevel :: "string \<Rightarrow> fcobject" where
  "toplevel n = \<lparr>Name = n, InList = []\<rparr>"

definition child :: "string \<Rightarrow> string \<Rightarrow> fcobject" where
  "child n parent = \<lparr>Name = n, InList = [parent]\<rparr>"

text \<open>A registry the selection handler leaves as it is.\<close>

definition settled :: "document \<Rightarrow> state \<Rightarrow> bool" where
  "settled doc s =
     (consistent s \<and> (\<forall>k\<in>set (export_order s). live doc k \<and> \<not> has_parent doc k))"

section \<open>Run monitor: the end of a simulation\<close>

text \<open>
  \<^verbatim>\<open>run_watcher.removePath(p)\<close>: the watcher holds a set of paths; removing a path it
  does not hold changes nothing and raises nothing. The call is logged.
\<close>

definition removePath :: "string \<Rightarrow> state \<Rightarrow> state" where
  "removePath p s = s\<lparr>run_watcher := removeAll p (run_watcher s), calls := calls s @ [RemovePath p]\<rparr>"

text \<open>
  \<^verbatim>\<open>on_dsph_sim_finished(exitCode)\<close>, the slot of the process's \<^verbatim>\<open>finished\<close> signal.
  \<open>output\<close> is what \<^verbatim>\<open>readAllStandardOutput()\<close> returns at that moment. The detail text
  of the error dialog is the second piece of the output around a row of 32 equals signs;
  without such a row the index raises, after the widgets have been set.
\<close>

definition on_dsph_sim_finished :: "int \<Rightarrow> string \<Rightarrow> state \<Rightarrow> state outcome" where
  "on_dsph_sim_finished exitCode output s =
     (if current_process s \<noteq> Process then Raised AttributeError s
      else
        (let s1 = removePath (out_dir s) s;
             s2 = s1\<lparr>run_dialog_title := Title ''DualSPHysics Simulation: Complete'',
                      run_progbar_bar := Fl 100,
                      run_button_cancel := ''Close''\<rparr>
         in if exitCode = 0
            then Returned (s2\<lparr>simulation_done := True, widget_state := ''sim finished''\<rparr>)
            else if substr_in ''exception'' (lower output) then
              (let s3 = s2\<lparr>run_dialog_title := Title ''DualSPHysics Simulation: Error'',
                           run_progbar_bar := Fl 0,
                           run_dialog_shown := False,
                           widget_state := ''sim error''\<rparr>
               in case item (py_split ''================================'' output) 1 of
                    Inl e \<Rightarrow> Raised e s3
                  | Inr details \<Rightarrow> Returned (s3\<lparr>execution_error_dialog := Some details\<rparr>))
            else Returned s2))"


text \<open>
  \<^verbatim>\<open>on_ex_simulate\<close>, as far as it writes the state. Its arguments are what the
  environment gives: the listing of the output directory (\<open>None\<close> when \<^verbatim>\<open>os.listdir\<close> or
  an \<^verbatim>\<open>os.remove\<close> raises), the text of the processor box, and whether the process is
  running when \<^verbatim>\<open>state()\<close> is asked right after \<^verbatim>\<open>start\<close>. Every call connects one more
  \<^verbatim>\<open>on_cancel\<close> to the cancel button, before the directory is listed; nothing ever
  disconnects one. (It also connects one more \<^verbatim>\<open>on_fs_change\<close> to the watcher; what is
  proved of \<^verbatim>\<open>on_fs_change\<close> below is about one call of it.) The deleted files and the
  three labels for case, processor and particles are not part of the state.
\<close>

definition addPath :: "string \<Rightarrow> state \<Rightarrow> state" where
  "addPath p s = (if p \<in> set (run_watcher s) then s else s\<lparr>run_watcher := run_watcher s @ [p]\<rparr>)"

definition final_params_ex :: "string \<Rightarrow> state \<Rightarrow> string list" where
  "final_params_ex processor s =
     [out_dir s @ project_name s, out_dir s, ''-svres'', ''-'' @ lower processor]
     @ (if length (additional_parameters s) < 2 then []
        else py_split '' '' (additional_parameters s))"

definition on_ex_simulate :: "string list option \<Rightarrow> string \<Rightarrow> bool \<Rightarrow> state \<Rightarrow> state outcome" where
  "on_ex_simulate listing processor process_running s =
     (let s1 = s\<lparr>run_progbar_bar := Fl 0,
                  simulation_done := False,
                  widget_state := ''sim start'',
                  run_button_cancel := ''Cancel Simulation'',
                  run_dialog_title := Title ''DualSPHysics Simulation: 0%'',
                  run_group_label_partsout := 0,
                  run_group_label_eta := ''Estimated time to complete simulation: Calculating...'',
                  on_cancel_connections := Suc (on_cancel_connections s)\<rparr>
      in case listing of
           None \<Rightarrow> Raised OSError s1
         | Some files \<Rightarrow>
             (let s2 = addPath (out_dir s1)
                         (s1\<lparr>current_process := Process,
                             calls := calls s1 @ [Start (dsphysics_path s1) (final_params_ex processor s1)]\<rparr>)
              in if process_running then Returned (s2\<lparr>run_dialog_shown := True\<rparr>)
                 else Returned ((removePath (out_dir s2) s2)\<lparr>current_process := EmptyText\<rparr>)))"






text \<open>
  A simulation that \<^verbatim>\<open>on_ex_simulate\<close> has started: \<^verbatim>\<open>current_process\<close> is the process,
  the output directory is watched, and \<^verbatim>\<open>simulation_done\<close> has been reset. \<open>started\<close>
  is the new case after its first start, and \<open>started_again\<close> the same case in a second
  run, when two \<^verbatim>\<open>on_cancel\<close> are connected to the button.
\<close>

definition running :: "state \<Rightarrow> bool" where
  "running s =
     (current_process s = Process \<and> out_dir s \<in> set (run_watcher s) \<and> \<not> simulation_done s)"

definition started :: state where
  "started = new_case\<lparr>current_process := Process, run_watcher := [''/home/user/dam/dam_Out/''],
                       run_dialog_shown := True, widget_state := ''sim start'',
                       on_cancel_connections := 1,
                       calls := [Start ''/opt/dsph/DualSPHysics_linux64''
                                  [''/home/user/dam/dam_Out/dam'', ''/home/user/dam/dam_Out/'',
                                   ''-svres'', ''-cpu'']]\<rparr>"


section \<open>Export driver\<close>

text \<open>
  The pre-scan of \<^verbatim>\<open>on_export\<close> over the files that \<^verbatim>\<open>glob\<close> found: the number
  between the first \<^verbatim>\<open>Part_\<close> and the next \<^verbatim>\<open>.bi4\<close> of each path, the largest one kept.
\<close>

fun scan_parts :: "string list \<Rightarrow> state \<Rightarrow> state outcome" where
  "scan_parts [] s = Returned s"
| "scan_parts (filename # rest) s =
     (case item (py_split ''Part_'' filename) 1 of
        Inl e \<Rightarrow> Raised e s
      | Inr t \<Rightarrow>
          (case py_int (hd (py_split ''.bi4'' t)) of
             Inl e \<Rightarrow> Raised e s
           | Inr n \<Rightarrow> scan_parts rest (s\<lparr>total_export_parts := max n (total_export_parts s)\<rparr>)))"

definition static_params_exp :: "state \<Rightarrow> string list" where
  "static_params_exp s =
     [''-dirin '' @ project_path s @ ''/'' @ project_name s @ ''_Out/'',
      ''-savevtk '' @ project_path s @ ''/'' @ project_name s @ ''_Out/PartAll'']"

definition additional_params_exp :: "state \<Rightarrow> string list" where
  "additional_params_exp s =
     (if length (export_options s) < 2 then []
      else py_split '' '' (additional_parameters s))"

text \<open>
  \<^verbatim>\<open>on_export\<close>, with the list of files that \<^verbatim>\<open>glob\<close> returns. The external program is
  started with \<^verbatim>\<open>final_params_exp\<close>; the start is logged in \<open>calls\<close>.
\<close>

definition on_export :: "string list \<Rightarrow> state \<Rightarrow> state outcome" where
  "on_export partfiles s =
     (case scan_parts partfiles (s\<lparr>widget_state := ''export start'', export_button := ''Exporting...''\<rparr>) of
        Raised e s1 \<Rightarrow> Raised e s1
      | Returned s1 \<Rightarrow>
          Returned (s1\<lparr>export_progbar_range := total_export_parts s1,
                       export_dialog_shown := True,
                       calls := calls s1 @ [Start (partvtk4_path s1)
                                  (static_params_exp s1 @ additional_params_exp s1)],
                       current_export_process := Process\<rparr>))"

section \<open>XML importer: \<^verbatim>\<open>filter_data\<close>\<close>

text \<open>
  \<^verbatim>\<open>raw\<close> is what \<^verbatim>\<open>json.loads(json.dumps(xmltodict.parse(...)))\<close> gives: an element is
  a dictionary (attributes under \<^verbatim>\<open>@name\<close>), a repeated element a list, a text or an
  attribute a string, an empty element \<^verbatim>\<open>None\<close>. A dictionary is the list of its items
  (xmltodict gives no key twice). Numbers are read from ASCII text.
\<close>

datatype json = JNull | JStr string | JList "json list" | JObj "(string \<times> json) list"

text \<open>\<^verbatim>\<open>v[k]\<close> with a string \<open>k\<close>: only a dictionary can be indexed with it.\<close>

definition subscript :: "json \<Rightarrow> string \<Rightarrow> error + json" where
  "subscript v k =
     (case v of
        JObj items \<Rightarrow> (case map_of items k of None \<Rightarrow> Inl KeyError | Some w \<Rightarrow> Inr w)
      | JList xs \<Rightarrow> Inl TypeError
      | JStr s \<Rightarrow> Inl TypeError
      | JNull \<Rightarrow> Inl TypeError)"

fun lookup :: "json \<Rightarrow> string list \<Rightarrow> error + json" where
  "lookup v [] = Inr v"
| "lookup v (k # ks) = (case subscript v k of Inl e \<Rightarrow> Inl e | Inr w \<Rightarrow> lookup w ks)"

text \<open>
  \<^verbatim>\<open>for x in v\<close>: the elements of a list, the keys of a dictionary, the characters of a
  string; \<^verbatim>\<open>None\<close> cannot be iterated.
\<close>

definition iterate :: "json \<Rightarrow> error + json list" where
  "iterate v =
     (case v of
        JList xs \<Rightarrow> Inr xs
      | JObj items \<Rightarrow> Inr (map (\<lambda>kv. JStr (fst kv)) items)
      | JStr s \<Rightarrow> Inr (map (\<lambda>c. JStr [c]) s)
      | JNull \<Rightarrow> Inl TypeError)"

text \<open>The values \<^verbatim>\<open>filter_data\<close> stores in \<^verbatim>\<open>fil\<close>.\<close>

datatype pyval =
  PInt int | PFloat pyfloat | PBool bool | PFloats "pyfloat list" | PInts "int list"
  | PRaw json

text \<open>
  The three ways a constant is read: \<^verbatim>\<open>int(v)\<close>, \<^verbatim>\<open>float(v)\<close> and
  \<^verbatim>\<open>v.lower() == "true"\<close>. \<^verbatim>\<open>int\<close> and \<^verbatim>\<open>float\<close> refuse what is no string with a
  TypeError; only a string has \<^verbatim>\<open>lower\<close>.
\<close>

datatype conv = to_int | to_float | is_true

fun convert :: "conv \<Rightarrow> json \<Rightarrow> error + pyval" where
  "convert to_int (JStr s) = (case py_int s of Inl e \<Rightarrow> Inl e | Inr n \<Rightarrow> Inr (PInt n))"
| "convert to_int v = Inl TypeError"
| "convert to_float (JStr s) = (case py_float s of Inl e \<Rightarrow> Inl e | Inr x \<Rightarrow> Inr (PFloat x))"
| "convert to_float v = Inl TypeError"
| "convert is_true (JStr s) = Inr (PBool (lower s = ''true''))"
| "convert is_true v = Inl AttributeError"

text \<open>
  The ``case constants'' block is a run of assignments \<^verbatim>\<open>fil[key] = conv(raw[...])\<close>, one
  per line and in this order, \<open>dp\<close> after them; \<open>gravity\<close> is the list of three
  floats. The table gives,
  for each line, the key written, the path read and the conversion.
\<close>

datatype assignment =
  Assign string "string list" conv
  | AssignFloats string "string list list"

definition constant_path :: "string \<Rightarrow> string \<Rightarrow> string list" where
  "constant_path element attribute = [''case'', ''casedef'', ''constantsdef'', element, attribute]"

definition case_constants :: "assignment list" where
  "case_constants =
     [Assign ''lattice_bound'' (constant_path ''lattice'' ''@bound'') to_int,
      Assign ''lattice_fluid'' (constant_path ''lattice'' ''@fluid'') to_int,
      AssignFloats ''gravity''
        [constant_path ''gravity'' ''@x'', constant_path ''gravity'' ''@y'', constant_path ''gravity'' ''@z''],
      Assign ''rhop0'' (constant_path ''rhop0'' ''@value'') to_float,
      Assign ''hswl'' (constant_path ''hswl'' ''@value'') to_float,
      Assign ''hswl_auto'' (constant_path ''hswl'' ''@auto'') is_true,
      Assign ''gamma'' (constant_path ''gamma'' ''@value'') to_float,
      Assign ''speedsystem'' (constant_path ''speedsystem'' ''@value'') to_float,
      Assign ''speedsystem_auto'' (constant_path ''speedsystem'' ''@auto'') is_true,
      Assign ''coefsound'' (constant_path ''coefsound'' ''@value'') to_float,
      Assign ''speedsound'' (constant_path ''speedsound'' ''@value'') to_float,
      Assign ''speedsound_auto'' (constant_path ''speedsound'' ''@auto'') is_true,
      Assign ''coefh'' (constant_path ''coefh'' ''@value'') to_float,
      Assign ''cflnumber'' (constant_path ''cflnumber'' ''@value'') to_float,
      Assign ''h'' (constant_path ''h'' ''@value'') to_float,
      Assign ''h_auto'' (constant_path ''h'' ''@auto'') is_true,
      Assign ''b'' (constant_path ''b'' ''@value'') to_float,
      Assign ''b_auto'' (constant_path ''b'' ''@auto'') is_true,
      Assign ''massbound'' (constant_path ''massbound'' ''@value'') to_float,
      Assign ''massbound_auto'' (constant_path ''massbound'' ''@auto'') is_true,
      Assign ''massfluid'' (constant_path ''massfluid'' ''@value'') to_float,
      Assign ''massfluid_auto'' (constant_path ''massbound'' ''@auto'') is_true,
      Assign ''dp'' [''case'', ''casedef'', ''geometry'', ''definition'', ''@dp''] to_float]"

fun floats_at :: "json \<Rightarrow> string list list \<Rightarrow> error + pyfloat list" where
  "floats_at raw [] = Inr []"
| "floats_at raw (path # paths) =
     (case lookup raw path of
        Inl e \<Rightarrow> Inl e
      | Inr v \<Rightarrow>
          (case convert to_float v of
             Inr (PFloat x) \<Rightarrow>
               (case floats_at raw paths of Inl e \<Rightarrow> Inl e | Inr xs \<Rightarrow> Inr (x # xs))
           | Inr other \<Rightarrow> Inl TypeError
           | Inl e \<Rightarrow> Inl e))"

fun assign :: "json \<Rightarrow> assignment \<Rightarrow> (string \<rightharpoonup> pyval) \<Rightarrow> error + (string \<rightharpoonup> pyval)" where
  "assign raw (Assign key path c) fil =
     (case lookup raw path of
        Inl e \<Rightarrow> Inl e
      | Inr v \<Rightarrow> (case convert c v of Inl e \<Rightarrow> Inl e | Inr x \<Rightarrow> Inr (fil(key \<mapsto> x))))"
| "assign raw (AssignFloats key paths) fil =
     (case floats_at raw paths of Inl e \<Rightarrow> Inl e | Inr xs \<Rightarrow> Inr (fil(key \<mapsto> PFloats xs)))"

fun assign_all :: "json \<Rightarrow> assignment list \<Rightarrow> (string \<rightharpoonup> pyval) \<Rightarrow> error + (string \<rightharpoonup> pyval)" where
  "assign_all raw [] fil = Inr fil"
| "assign_all raw (a # rest) fil =
     (case assign raw a fil of Inl e \<Rightarrow> Inl e | Inr fil1 \<Rightarrow> assign_all raw rest fil1)"

text \<open>
  One round of the loop over the execution parameters. The test \<^verbatim>\<open>'#' in key\<close> comes
  first; in the assignment the right-hand side \<^verbatim>\<open>float(parameter['@value'])\<close> is
  evaluated before the key expression, whose \<^verbatim>\<open>replace\<close> and \<^verbatim>\<open>lower\<close> need a string.
\<close>

definition parameter_step :: "json \<Rightarrow> (string \<rightharpoonup> pyval) \<Rightarrow> error + (string \<rightharpoonup> pyval)" where
  "parameter_step parameter fil =
     (case subscript parameter ''@key'' of
        Inl e \<Rightarrow> Inl e
      | Inr JNull \<Rightarrow> Inl TypeError
      | Inr key \<Rightarrow>
          (case lookup parameter [''@value''] of
             Inl e \<Rightarrow> Inl e
           | Inr v \<Rightarrow>
               (case convert to_float v of
                  Inl e \<Rightarrow> Inl e
                | Inr x \<Rightarrow>
                    (case key of
                       JStr k \<Rightarrow>
                         if CHR ''#'' \<in> set k
                         then Inr (fil(lower (filter (\<lambda>c. c \<noteq> CHR ''#'') k) \<mapsto> x,
                                       lower (filter (\<lambda>c. c \<noteq> CHR ''#'') k) @ ''_auto'' \<mapsto> PBool True))
                         else Inr (fil(lower k \<mapsto> x))
                     | other \<Rightarrow> Inl AttributeError))))"

fun parameter_loop :: "json list \<Rightarrow> (string \<rightharpoonup> pyval) \<Rightarrow> error + (string \<rightharpoonup> pyval)" where
  "parameter_loop [] fil = Inr fil"
| "parameter_loop (parameter # rest) fil =
     (case parameter_step parameter fil of
        Inl e \<Rightarrow> Inl e
      | Inr fil1 \<Rightarrow> parameter_loop rest fil1)"

text \<open>
  ``Finding used mkfluids and mkbounds'': the \<^verbatim>\<open>@mk\<close> numbers of one kind of command, of
  a single dictionary or of each element in turn. A KeyError anywhere in the block is
  caught and keeps what the list holds by then; any other error leaves the function.
\<close>

definition mk_of :: "json \<Rightarrow> error + int" where
  "mk_of command =
     (case subscript command ''@mk'' of
        Inl e \<Rightarrow> Inl e
      | Inr v \<Rightarrow> (case convert to_int v of Inr (PInt n) \<Rightarrow> Inr n | Inr other \<Rightarrow> Inl TypeError | Inl e \<Rightarrow> Inl e))"

fun mk_loop :: "json list \<Rightarrow> int list \<Rightarrow> error option \<times> int list" where
  "mk_loop [] used = (None, used)"
| "mk_loop (command # rest) used =
     (case mk_of command of Inl e \<Rightarrow> (Some e, used) | Inr n \<Rightarrow> mk_loop rest (used @ [n]))"

definition mk_used :: "json \<Rightarrow> string \<Rightarrow> error option \<times> int list" where
  "mk_used raw command =
     (case lookup raw [''case'', ''casedef'', ''geometry'', ''commands'', ''mainlist'', command] of
        Inl e \<Rightarrow> (Some e, [])
      | Inr (JObj items) \<Rightarrow>
          (case mk_of (JObj items) of Inl e \<Rightarrow> (Some e, []) | Inr n \<Rightarrow> (None, [n]))
      | Inr several \<Rightarrow>
          (case iterate several of Inl e \<Rightarrow> (Some e, []) | Inr commands \<Rightarrow> mk_loop commands []))"

definition store_mk_used ::
    "string \<Rightarrow> error option \<times> int list \<Rightarrow> (string \<rightharpoonup> pyval) \<Rightarrow> error + (string \<rightharpoonup> pyval)" where
  "store_mk_used key found fil =
     (case fst found of
        None \<Rightarrow> Inr (fil(key \<mapsto> PInts (snd found)))
      | Some KeyError \<Rightarrow> Inr (fil(key \<mapsto> PInts (snd found)))
      | Some e \<Rightarrow> Inl e)"

definition filter_data :: "json \<Rightarrow> error + (string \<rightharpoonup> pyval)" where
  "filter_data raw =
     (case assign_all raw case_constants Map.empty of
        Inl e \<Rightarrow> Inl e
      | Inr fil1 \<Rightarrow>
          (case lookup raw [''case'', ''execution'', ''parameters'', ''parameter''] of
             Inl e \<Rightarrow> Inl e
           | Inr execution_parameters \<Rightarrow>
               (case iterate execution_parameters of
                  Inl e \<Rightarrow> Inl e
                | Inr parameters \<Rightarrow>
                    (case parameter_loop parameters fil1 of
                       Inl e \<Rightarrow> Inl e
                     | Inr fil2 \<Rightarrow>
                         (case lookup raw [''case'', ''@app''] of
                            Inl e \<Rightarrow> Inl e
                          | Inr app \<Rightarrow>
                              (case store_mk_used ''mkboundused'' (mk_used raw ''setmkbound'')
                                      (fil2(''project_name'' \<mapsto> PRaw app,
                                            ''mkboundused'' \<mapsto> PInts [],
                                            ''mkfluidused'' \<mapsto> PInts [])) of
                                 Inl e \<Rightarrow> Inl e
                               | Inr fil3 \<Rightarrow>
                                   store_mk_used ''mkfluidused'' (mk_used raw ''setmkfluid'') fil3))))))"

text \<open>
  The keys that the loop over the execution parameters writes into \<^verbatim>\<open>fil\<close>: for a
  parameter whose key holds \<^verbatim>\<open>#\<close>, the key without it in small letters and that name
  with \<^verbatim>\<open>_auto\<close>; otherwise the key in small letters.
\<close>

definition parameter_targets :: "json \<Rightarrow> string list" where
  "parameter_targets parameter =
     (case subscript parameter ''@key'' of
        Inr (JStr k) \<Rightarrow>
          if CHR ''#'' \<in> set k
          then [lower (filter (\<lambda>c. c \<noteq> CHR ''#'') k),
                lower (filter (\<lambda>c. c \<noteq> CHR ''#'') k) @ ''_auto'']
          else [lower k]
      | other \<Rightarrow> [])"

definition written_by_parameters :: "json \<Rightarrow> string list" where
  "written_by_parameters raw =
     (case lookup raw [''case'', ''execution'', ''parameters'', ''parameter''] of
        Inl e \<Rightarrow> []
      | Inr execution_parameters \<Rightarrow>
          (case iterate execution_parameters of
             Inl e \<Rightarrow> []
           | Inr parameters \<Rightarrow> concat (map parameter_targets parameters)))"

text \<open>
  A complete case file for the examples, with the \<^verbatim>\<open>auto\<close> attributes of \<^verbatim>\<open>massbound\<close>
  and \<^verbatim>\<open>massfluid\<close> and the execution parameters left open. The parser hands over a
  list for two or more \<^verbatim>\<open>parameter\<close> elements (a single one comes as a dictionary, and
  the loop then runs over its keys), so the examples give two.
\<close>

definition valued :: "string \<Rightarrow> string \<Rightarrow> json" where
  "valued v a = JObj [(''@value'', JStr v), (''@auto'', JStr a)]"

definition parameter :: "string \<Rightarrow> string \<Rightarrow> json" where
  "parameter k v = JObj [(''@key'', JStr k), (''@value'', JStr v)]"

definition case_file :: "string \<Rightarrow> string \<Rightarrow> json list \<Rightarrow> json" where
  "case_file massbound_auto massfluid_auto parameters =
     JObj [(''case'', JObj
       [(''@app'', JStr ''GenCase4''),
        (''casedef'', JObj
          [(''constantsdef'', JObj
             [(''lattice'', JObj [(''@bound'', JStr ''1''), (''@fluid'', JStr ''1'')]),
              (''gravity'', JObj [(''@x'', JStr ''0''), (''@y'', JStr ''0''), (''@z'', JStr ''-9.81'')]),
              (''rhop0'', JObj [(''@value'', JStr ''1000'')]),
              (''hswl'', valued ''0'' ''true''),
              (''gamma'', JObj [(''@value'', JStr ''7'')]),
              (''speedsystem'', valued ''0'' ''true''),
              (''coefsound'', JObj [(''@value'', JStr ''20'')]),
              (''speedsound'', valued ''0'' ''true''),
              (''coefh'', JObj [(''@value'', JStr ''1.0'')]),
              (''cflnumber'', JObj [(''@value'', JStr ''0.2'')]),
              (''h'', valued ''0'' ''true''),
              (''b'', valued ''0'' ''true''),
              (''massbound'', valued ''0'' massbound_auto),
              (''massfluid'', valued ''0'' massfluid_auto)]),
           (''geometry'', JObj
             [(''definition'', JObj [(''@dp'', JStr ''0.01'')]),
              (''commands'', JObj
                [(''mainlist'', JObj
                   [(''setmkfluid'', JObj [(''@mk'', JStr ''0'')]),
                    (''setmkbound'', JList [JObj [(''@mk'', JStr ''0'')], JObj [(''@mk'', JStr ''1'')]])])])])]),
        (''execution'', JObj [(''parameters'', JObj [(''parameter'', JList parameters)])])])]"

text \<open>The entry of the returned dictionary under a key, when \<^verbatim>\<open>filter_data\<close> returned.\<close>

definition returned_entry :: "error + (string \<rightharpoonup> pyval) \<Rightarrow> string \<Rightarrow> pyval option" where
  "returned_entry r k = (case r of Inl e \<Rightarrow> None | Inr fil \<Rightarrow> fil k)"

section \<open>Evaluation of literals\<close>

lemmas py_literals =
  strip_def is_space_def split_sign_def lower_def char_lower_def parse_decimal_def
  parse_mantissa_def is_exp_mark_def is_digit_def digit_of_def py_split_def item_def
  last_item_def

section \<open>The selection handler on a consistent registry\<close>

lemma getObject_None: "getObject doc k = None \<longleftrightarrow> k \<notin> set (objectNames doc)"
  by (auto simp: getObject_def objectNames_def find_None_iff)

lemma getObject_Name: "getObject doc k = Some obj \<Longrightarrow> Name obj = k"
  by (auto simp: getObject_def find_Some_iff)

lemma remove1_as_filter: "distinct xs \<Longrightarrow> remove1 x xs = filter (\<lambda>y. y \<noteq> x) xs"
  by (simp add: distinct_remove1_removeAll removeAll_filter_not_eq) (metis)

lemma detect_deletion_distinct:
  "distinct ks \<Longrightarrow> distinct (export_order s)
   \<Longrightarrow> \<forall>k\<in>set ks. k \<notin> set names \<longrightarrow> k \<in> set (export_order s)
   \<Longrightarrow> detect_deletion names ks s =
        Returned (s\<lparr>simobjects := filter (\<lambda>kv. fst kv \<in> set names \<or> fst kv \<notin> set ks) (simobjects s),
                    export_order := filter (\<lambda>k. k \<in> set names \<or> k \<notin> set ks) (export_order s)\<rparr>)"
proof (induction ks arbitrary: s)
  case Nil
  then show ?case by simp
next
  case (Cons key rest)
  show ?case
  proof (cases "key \<in> set names")
    case True
    have "detect_deletion names (key # rest) s = detect_deletion names rest s"
      using True by simp
    also have "\<dots> = Returned (s\<lparr>simobjects := filter (\<lambda>kv. fst kv \<in> set names \<or> fst kv \<notin> set rest) (simobjects s),
                    export_order := filter (\<lambda>k. k \<in> set names \<or> k \<notin> set rest) (export_order s)\<rparr>)"
      using Cons.prems by (intro Cons.IH) auto
    also have "filter (\<lambda>kv. fst kv \<in> set names \<or> fst kv \<notin> set rest) (simobjects s)
             = filter (\<lambda>kv. fst kv \<in> set names \<or> fst kv \<notin> set (key # rest)) (simobjects s)"
      using True by (intro filter_cong) auto
    also have "filter (\<lambda>k. k \<in> set names \<or> k \<notin> set rest) (export_order s)
             = filter (\<lambda>k. k \<in> set names \<or> k \<notin> set (key # rest)) (export_order s)"
      using True by (intro filter_cong) auto
    finally show ?thesis .
  next
    case False
    define s2 where "s2 = s\<lparr>simobjects := pop key (simobjects s),
                            export_order := remove1 key (export_order s)\<rparr>"
    have mem: "key \<in> set (export_order s)" using Cons.prems False by simp
    have "detect_deletion names (key # rest) s = detect_deletion names rest s2"
      using False mem by (simp add: s2_def Let_def)
    also have "\<dots> = Returned (s2\<lparr>simobjects := filter (\<lambda>kv. fst kv \<in> set names \<or> fst kv \<notin> set rest) (simobjects s2),
                    export_order := filter (\<lambda>k. k \<in> set names \<or> k \<notin> set rest) (export_order s2)\<rparr>)"
      using Cons.prems by (intro Cons.IH) (auto simp: s2_def)
    also have "filter (\<lambda>kv. fst kv \<in> set names \<or> fst kv \<notin> set rest) (simobjects s2)
             = filter (\<lambda>kv. fst kv \<in> set names \<or> fst kv \<notin> set (key # rest)) (simobjects s)"
      using False by (auto simp: s2_def pop_def intro: filter_cong)
    also have "filter (\<lambda>k. k \<in> set names \<or> k \<notin> set rest) (export_order s2)
             = filter (\<lambda>k. k \<in> set names \<or> k \<notin> set (key # rest)) (export_order s)"
      using False Cons.prems(2) by (auto simp: s2_def remove1_as_filter intro: filter_cong)
    finally show ?thesis by (simp add: s2_def)
  qed
qed

lemma order_loop_live:
  "\<forall>k\<in>set order. live doc k
   \<Longrightarrow> order_loop doc i order parented =
        (order, parented @ filter (has_parent doc) (drop i order))"
proof (induction "length order - i" arbitrary: i parented)
  case 0
  then show ?case by (subst order_loop.simps) simp
next
  case (Suc n)
  then have i: "i < length order" by simp
  then have "live doc (order ! i)" using Suc.prems by simp
  then obtain obj where obj: "getObject doc (order ! i) = Some obj"
    using getObject_None[of doc "order ! i"] by (auto simp: live_def)
  have name: "Name obj = order ! i" using obj by (rule getObject_Name)
  have step: "drop i order = order ! i # drop (Suc i) order"
    using i by (simp add: Cons_nth_drop_Suc)
  have n: "n = length order - Suc i" using Suc.hyps(2) by simp
  show ?case
    using Suc.hyps(1)[OF n Suc.prems] i obj name
    by (subst order_loop.simps) (simp add: step has_parent_def)
qed

lemma drop_parented_distinct:
  "distinct (export_order s) \<Longrightarrow> distinct ps \<Longrightarrow> set ps \<subseteq> set (export_order s)
   \<Longrightarrow> drop_parented ps s =
        Returned (s\<lparr>simobjects := filter (\<lambda>kv. fst kv \<notin> set ps) (simobjects s),
                    export_order := filter (\<lambda>k. k \<notin> set ps) (export_order s)\<rparr>)"
proof (induction ps arbitrary: s)
  case Nil
  then show ?case by simp
next
  case (Cons each rest)
  define s2 where "s2 = s\<lparr>simobjects := pop each (simobjects s),
                          export_order := remove1 each (export_order s)\<rparr>"
  have "drop_parented (each # rest) s = drop_parented rest s2"
    using Cons.prems by (simp add: s2_def Let_def)
  also have "\<dots> = Returned (s2\<lparr>simobjects := filter (\<lambda>kv. fst kv \<notin> set rest) (simobjects s2),
                    export_order := filter (\<lambda>k. k \<notin> set rest) (export_order s2)\<rparr>)"
    using Cons.prems by (intro Cons.IH) (auto simp: s2_def)
  also have "filter (\<lambda>kv. fst kv \<notin> set rest) (simobjects s2)
           = filter (\<lambda>kv. fst kv \<notin> set (each # rest)) (simobjects s)"
    by (auto simp: s2_def pop_def intro: filter_cong)
  also have "filter (\<lambda>k. k \<notin> set rest) (export_order s2)
           = filter (\<lambda>k. k \<notin> set (each # rest)) (export_order s)"
    using Cons.prems(1) by (auto simp: s2_def remove1_as_filter intro: filter_cong)
  finally show ?case by (simp add: s2_def)
qed

lemma selection_change_consistent:
  assumes "consistent s"
  shows "on_tree_item_selection_change doc selection s =
           Returned (s\<lparr>simobjects := filter (\<lambda>kv. kept doc selection (fst kv)) (simobjects s),
                       export_order := filter (kept doc selection) (export_order s)\<rparr>)"
proof -
  let ?names = "objectNames doc"
  let ?ks = "keys (simobjects s)"
  have dk: "distinct ?ks" and de: "distinct (export_order s)"
    and eq: "set (export_order s) = set ?ks"
    using assms by (auto simp: consistent_def)
  define so1 where "so1 = filter (\<lambda>kv. live doc (fst kv)) (simobjects s)"
  define eo1 where "eo1 = filter (live doc) (export_order s)"
  define s1 where "s1 = s\<lparr>simobjects := so1, export_order := eo1\<rparr>"
  have f1: "filter (\<lambda>kv. fst kv \<in> set ?names \<or> fst kv \<notin> set ?ks) (simobjects s) = so1"
    unfolding so1_def by (rule filter_cong) (auto simp: live_def keys_def)
  have f2: "filter (\<lambda>k. k \<in> set ?names \<or> k \<notin> set ?ks) (export_order s) = eo1"
    unfolding eo1_def using eq by (intro filter_cong) (auto simp: live_def)
  have phase1: "detect_deletion ?names ?ks s = Returned s1"
    using detect_deletion_distinct[OF dk de, of ?names] eq
    by (simp add: f1 f2 s1_def)
  show ?thesis
  proof (cases "case_limits_selected selection")
    case True
    have "kept doc selection = live doc"
      using True by (auto simp: kept_def fun_eq_iff)
    then have "so1 = filter (\<lambda>kv. kept doc selection (fst kv)) (simobjects s)"
      "eo1 = filter (kept doc selection) (export_order s)"
      by (simp_all add: so1_def eo1_def)
    then show ?thesis
      using True phase1 by (simp add: on_tree_item_selection_change_def s1_def)
  next
    case False
    have keys1: "set (keys so1) = set eo1"
      using eq by (auto simp: so1_def eo1_def keys_def)
    have rebuild: "(if length (export_order s1) = 0
                    then s1\<lparr>export_order := keys (simobjects s1)\<rparr> else s1) = s1"
      using keys1 by (auto simp: s1_def)
    have all_live: "\<forall>k\<in>set eo1. live doc k" by (simp add: eo1_def)
    have loop: "order_loop doc 0 (export_order s1) [] = (eo1, filter (has_parent doc) eo1)"
      using order_loop_live[OF all_live, of 0 "[]"] by (simp add: s1_def)
    have de1: "distinct (export_order s1)" using de by (simp add: s1_def eo1_def)
    have "drop_parented (filter (has_parent doc) eo1) s1 =
            Returned (s1\<lparr>simobjects := filter (\<lambda>kv. fst kv \<notin> set (filter (has_parent doc) eo1)) (simobjects s1),
                         export_order := filter (\<lambda>k. k \<notin> set (filter (has_parent doc) eo1)) (export_order s1)\<rparr>)"
      using de1 by (intro drop_parented_distinct) (auto simp: s1_def)
    moreover have "filter (\<lambda>kv. fst kv \<notin> set (filter (has_parent doc) eo1)) (simobjects s1)
                 = filter (\<lambda>kv. kept doc selection (fst kv)) (simobjects s)"
      using False eq by (auto simp: s1_def so1_def eo1_def kept_def keys_def intro!: filter_cong)
    moreover have "filter (\<lambda>k. k \<notin> set (filter (has_parent doc) eo1)) (export_order s1)
                 = filter (kept doc selection) (export_order s)"
      using False by (auto simp: s1_def eo1_def kept_def intro!: filter_cong)
    ultimately have "drop_parented (filter (has_parent doc) eo1) s1 =
            Returned (s\<lparr>simobjects := filter (\<lambda>kv. kept doc selection (fst kv)) (simobjects s),
                        export_order := filter (kept doc selection) (export_order s)\<rparr>)"
      by (simp add: s1_def)
    moreover have "s1\<lparr>export_order := eo1\<rparr> = s1" by (simp add: s1_def)
    ultimately show ?thesis
      using False phase1 loop rebuild
      by (simp add: on_tree_item_selection_change_def)
  qed
qed

lemma consistent_kept:
  assumes "consistent s"
  shows "consistent (s\<lparr>simobjects := filter (\<lambda>kv. P (fst kv)) (simobjects s),
                        export_order := filter P (export_order s)\<rparr>)"
proof -
  have "keys (filter (\<lambda>kv. P (fst kv)) (simobjects s)) = filter P (keys (simobjects s))"
    by (simp add: keys_def filter_map comp_def)
  then show ?thesis using assms by (auto simp: consistent_def)
qed

lemma keys_filter: "keys (filter (\<lambda>kv. P (fst kv)) d) = filter P (keys d)"
  by (simp add: keys_def filter_map comp_def)

lemmas registry_eval =
  registry_def new_case_def toplevel_def child_def on_tree_item_selection_change_def
  objectNames_def getObject_def keys_def pop_def case_limits_selected_def

text \<open>
  Claim C1, as amended. In every consistent registry (no identifier twice, and
  \<open>export_order\<close> holding exactly the keys of \<open>simobjects\<close>), for every document and
  selection, one run of \<^verbatim>\<open>on_tree_item_selection_change\<close> returns without an error; every
  identifier whose object is gone from the document is afterwards in neither structure;
  unless the selection is the single object \<^verbatim>\<open>Case_Limits\<close>, every identifier whose object
  has a parent is afterwards in neither structure; every identifier of a top-level object
  of the document stays where it was; and afterwards \<open>export_order\<close> again holds exactly the keys of \<open>simobjects\<close>, so
  no identifier is in one structure only.
\<close>

theorem C1_pruned_from_both:
  assumes "consistent s"
  shows "\<exists>s'. on_tree_item_selection_change doc selection s = Returned s'
           \<and> set (export_order s') = set (keys (simobjects s'))
           \<and> consistent s'
           \<and> (\<forall>k. \<not> live doc k \<longrightarrow>
                  k \<notin> set (keys (simobjects s')) \<and> k \<notin> set (export_order s'))
           \<and> (\<forall>k. has_parent doc k \<and> \<not> case_limits_selected selection \<longrightarrow>
                  k \<notin> set (keys (simobjects s')) \<and> k \<notin> set (export_order s'))
           \<and> (\<forall>k. live doc k \<and> \<not> has_parent doc k \<longrightarrow>
                  (k \<in> set (keys (simobjects s')) \<longleftrightarrow> k \<in> set (keys (simobjects s)))
                  \<and> (k \<in> set (export_order s') \<longleftrightarrow> k \<in> set (export_order s)))"
proof -
  let ?s' = "s\<lparr>simobjects := filter (\<lambda>kv. kept doc selection (fst kv)) (simobjects s),
               export_order := filter (kept doc selection) (export_order s)\<rparr>"
  have run: "on_tree_item_selection_change doc selection s = Returned ?s'"
    using assms by (rule selection_change_consistent)
  have c: "consistent ?s'" using assms by (rule consistent_kept)
  then have eq: "set (export_order ?s') = set (keys (simobjects ?s'))"
    by (simp add: consistent_def)
  have dead: "\<forall>k. \<not> live doc k \<longrightarrow>
                  k \<notin> set (keys (simobjects ?s')) \<and> k \<notin> set (export_order ?s')"
    by (auto simp: keys_def kept_def)
  have par: "\<forall>k. has_parent doc k \<and> \<not> case_limits_selected selection \<longrightarrow>
                  k \<notin> set (keys (simobjects ?s')) \<and> k \<notin> set (export_order ?s')"
    by (auto simp: keys_def kept_def)
  have "\<forall>k. live doc k \<and> \<not> has_parent doc k \<longrightarrow> kept doc selection k"
    by (simp add: kept_def)
  then have stay: "\<forall>k. live doc k \<and> \<not> has_parent doc k \<longrightarrow>
                  (k \<in> set (keys (simobjects ?s')) \<longleftrightarrow> k \<in> set (keys (simobjects s)))
                  \<and> (k \<in> set (export_order ?s') \<longleftrightarrow> k \<in> set (export_order s))"
    by (auto simp: keys_filter)
  show ?thesis
    using run c eq dead par stay by blast
qed

text \<open>
  The theorem at work: \<^verbatim>\<open>Box\<close> has been put into a group and \<^verbatim>\<open>Cyl\<close> has been deleted;
  one run drops both from both structures.
\<close>

theorem C1_pruned_from_both_witness:
  "consistent (registry [''Case_Limits'', ''Box'', ''Cyl''] [''Case_Limits'', ''Box'', ''Cyl''])
   \<and> has_parent [toplevel ''Case_Limits'', child ''Box'' ''Group'', toplevel ''Group''] ''Box''
   \<and> \<not> live [toplevel ''Case_Limits'', child ''Box'' ''Group'', toplevel ''Group''] ''Cyl''
   \<and> (\<exists>s'. on_tree_item_selection_change
               [toplevel ''Case_Limits'', child ''Box'' ''Group'', toplevel ''Group''] []
               (registry [''Case_Limits'', ''Box'', ''Cyl''] [''Case_Limits'', ''Box'', ''Cyl''])
             = Returned s'
           \<and> ''Box'' \<notin> set (keys (simobjects s')) \<and> ''Box'' \<notin> set (export_order s')
           \<and> ''Cyl'' \<notin> set (keys (simobjects s')) \<and> ''Cyl'' \<notin> set (export_order s')
           \<and> set (export_order s') = set (keys (simobjects s')))"
proof -
  let ?doc = "[toplevel ''Case_Limits'', child ''Box'' ''Group'', toplevel ''Group'']"
  let ?s = "registry [''Case_Limits'', ''Box'', ''Cyl''] [''Case_Limits'', ''Box'', ''Cyl'']"
  have c: "consistent ?s" by (simp add: consistent_def registry_eval)
  have p: "has_parent ?doc ''Box''" by (simp add: has_parent_def registry_eval)
  have d: "\<not> live ?doc ''Cyl''" by (simp add: live_def registry_eval)
  have n: "\<not> case_limits_selected []" by (simp add: case_limits_selected_def)
  show ?thesis
    using C1_pruned_from_both[OF c, of ?doc "[]"] c p d n by blast
qed

text \<open>
  Claim C1 as stated fails in two ways. With \<^verbatim>\<open>Case_Limits\<close> as the single selected
  object the handler returns before the table loop, so \<^verbatim>\<open>Box\<close>, which has a parent,
  stays in both structures. And from a registry in which \<^verbatim>\<open>Case_Limits\<close> is a key of
  \<open>simobjects\<close> but no entry of \<open>export_order\<close> (the spec's own data model), the run
  that prunes the deleted \<^verbatim>\<open>Cyl\<close> leaves \<^verbatim>\<open>Case_Limits\<close> in one structure only.
\<close>

theorem C1_counterexample:
  "on_tree_item_selection_change
      [toplevel ''Case_Limits'', child ''Box'' ''Group'', toplevel ''Group'']
      [toplevel ''Case_Limits'']
      (registry [''Case_Limits'', ''Box''] [''Case_Limits'', ''Box''])
     = Returned (registry [''Case_Limits'', ''Box''] [''Case_Limits'', ''Box''])
   \<and> has_parent [toplevel ''Case_Limits'', child ''Box'' ''Group'', toplevel ''Group''] ''Box''
   \<and> on_tree_item_selection_change
        [toplevel ''Case_Limits'', toplevel ''Box''] []
        (registry [''Case_Limits'', ''Box'', ''Cyl''] [''Box'', ''Cyl''])
     = Returned (registry [''Case_Limits'', ''Box''] [''Box''])"
  by (simp add: registry_eval has_parent_def order_loop.simps)

text \<open>
  Claim C2, as amended. In every consistent registry, for every document and selection,
  \<^verbatim>\<open>on_tree_item_selection_change\<close> returns a state on which a second run, with the
  same document and selection, returns that same state: the second call changes nothing.
\<close>

theorem C2_idempotent:
  assumes "consistent s"
  shows "\<exists>s'. on_tree_item_selection_change doc selection s = Returned s'
           \<and> on_tree_item_selection_change doc selection s' = Returned s'"
proof -
  let ?s' = "s\<lparr>simobjects := filter (\<lambda>kv. kept doc selection (fst kv)) (simobjects s),
               export_order := filter (kept doc selection) (export_order s)\<rparr>"
  have first: "on_tree_item_selection_change doc selection s = Returned ?s'"
    using assms by (rule selection_change_consistent)
  have c: "consistent ?s'" using assms by (rule consistent_kept)
  have "on_tree_item_selection_change doc selection ?s' =
          Returned (?s'\<lparr>simobjects := filter (\<lambda>kv. kept doc selection (fst kv)) (simobjects ?s'),
                        export_order := filter (kept doc selection) (export_order ?s')\<rparr>)"
    using c by (rule selection_change_consistent)
  then have "on_tree_item_selection_change doc selection ?s' = Returned ?s'"
    by simp
  with first show ?thesis by blast
qed

text \<open>The theorem at work on the registry of the example above.\<close>

theorem C2_idempotent_witness:
  "consistent (registry [''Case_Limits'', ''Box'', ''Cyl''] [''Case_Limits'', ''Box'', ''Cyl''])
   \<and> on_tree_item_selection_change
        [toplevel ''Case_Limits'', child ''Box'' ''Group'', toplevel ''Group''] []
        (registry [''Case_Limits'', ''Box'', ''Cyl''] [''Case_Limits'', ''Box'', ''Cyl''])
      = Returned (registry [''Case_Limits''] [''Case_Limits''])
   \<and> on_tree_item_selection_change
        [toplevel ''Case_Limits'', child ''Box'' ''Group'', toplevel ''Group''] []
        (registry [''Case_Limits''] [''Case_Limits''])
      = Returned (registry [''Case_Limits''] [''Case_Limits''])"
proof -
  let ?doc = "[toplevel ''Case_Limits'', child ''Box'' ''Group'', toplevel ''Group'']"
  let ?s = "registry [''Case_Limits'', ''Box'', ''Cyl''] [''Case_Limits'', ''Box'', ''Cyl'']"
  have c: "consistent ?s" by (simp add: consistent_def registry_eval)
  have first: "on_tree_item_selection_change ?doc [] ?s = Returned (registry [''Case_Limits''] [''Case_Limits''])"
    by (simp add: registry_eval order_loop.simps)
  show ?thesis
    using C2_idempotent[OF c, of ?doc "[]"] c first by simp
qed

text \<open>
  Claim C2 as stated fails outside the consistent registries: with \<^verbatim>\<open>Case_Limits\<close> a key
  of \<open>simobjects\<close> but no entry of \<open>export_order\<close>, the first run prunes \<^verbatim>\<open>Box\<close>
  (it has a parent) and leaves \<open>export_order\<close> empty; the second run finds it empty and
  rebuilds it from the keys.
\<close>

theorem C2_counterexample:
  "on_tree_item_selection_change
      [toplevel ''Case_Limits'', child ''Box'' ''Group'', toplevel ''Group''] []
      (registry [''Case_Limits'', ''Box''] [''Box''])
     = Returned (registry [''Case_Limits''] [])
   \<and> on_tree_item_selection_change
      [toplevel ''Case_Limits'', child ''Box'' ''Group'', toplevel ''Group''] []
      (registry [''Case_Limits''] [])
     = Returned (registry [''Case_Limits''] [''Case_Limits''])
   \<and> registry [''Case_Limits''] [] \<noteq> registry [''Case_Limits''] [''Case_Limits'']"
  by (simp add: registry_eval order_loop.simps)

section \<open>Moving an entry of the export order\<close>

lemma order_up_absent: "prev_elem \<notin> set zs \<Longrightarrow> order_up prev_elem curr_elem zs = zs"
  by (induction zs) auto

lemma order_up_append:
  "order_up prev_elem curr_elem (xs @ zs) = order_up prev_elem curr_elem xs @ order_up prev_elem curr_elem zs"
  by (induction xs) auto

lemma order_down_absent: "next_elem \<notin> set zs \<Longrightarrow> order_down next_elem curr_elem zs = zs"
  by (induction zs) auto

lemma order_down_append:
  "order_down next_elem curr_elem (xs @ zs) = order_down next_elem curr_elem xs @ order_down next_elem curr_elem zs"
  by (induction xs) auto

lemma move_up_list:
  "distinct (xs @ p # c # ys) \<Longrightarrow> order_up p c (remove1 c (xs @ p # c # ys)) = xs @ c # p # ys"
  by (simp add: remove1_append order_up_append order_up_absent)

lemma move_down_list:
  "distinct (xs @ c # p # ys) \<Longrightarrow> order_down p c (remove1 c (xs @ c # p # ys)) = xs @ p # c # ys"
  by (auto simp: remove1_append order_down_append order_down_absent)

lemma split_at_pair:
  "i + 1 < length xs \<Longrightarrow> xs = take i xs @ xs ! i # xs ! (i + 1) # drop (i + 2) xs"
  by (metis Cons_nth_drop_Suc Suc_eq_plus1 Suc_lessD add_2_eq_Suc' append_take_drop_id)

lemma settled_fixed:
  assumes "settled doc s"
  shows "on_tree_item_selection_change doc selection s = Returned s"
proof -
  have c: "consistent s" using assms by (simp add: settled_def)
  have all: "\<forall>k\<in>set (export_order s). kept doc selection k"
    using assms by (simp add: settled_def kept_def)
  then have e: "filter (kept doc selection) (export_order s) = export_order s"
    by simp
  have "\<forall>kv\<in>set (simobjects s). kept doc selection (fst kv)"
    using all c by (auto simp: consistent_def keys_def)
  then have f: "filter (\<lambda>kv. kept doc selection (fst kv)) (simobjects s) = simobjects s"
    by simp
  show ?thesis
    using selection_change_consistent[OF c, of doc selection] by (simp add: e f)
qed

lemma settled_reorder:
  "settled doc s \<Longrightarrow> distinct order \<Longrightarrow> set order = set (export_order s)
   \<Longrightarrow> settled doc (s\<lparr>export_order := order\<rparr>)"
  by (simp add: settled_def consistent_def)

lemma consistent_lengths: "consistent s \<Longrightarrow> length (keys (simobjects s)) = length (export_order s)"
  by (metis consistent_def distinct_card)

lemma settled_swap:
  assumes "settled doc s" and "export_order s = xs @ p # c # ys"
  shows "settled doc (s\<lparr>export_order := xs @ c # p # ys\<rparr>)"
proof -
  have "distinct (xs @ p # c # ys)" using assms by (simp add: settled_def consistent_def)
  then show ?thesis
    using assms by (intro settled_reorder) auto
qed

lemma click_up:
  assumes st: "settled doc s" and eo: "export_order s = xs @ p # c # ys"
  shows "on_cell_click doc selection (length xs) 1 s
           = Returned (s\<lparr>export_order := xs @ c # p # ys\<rparr>)"
proof -
  have c: "consistent s" using st by (simp add: settled_def)
  have d: "distinct (xs @ p # c # ys)" using c eo by (simp add: consistent_def)
  have len: "length (keys (simobjects s)) = length xs + 2 + length ys"
    using consistent_lengths[OF c] eo by simp
  have curr: "export_order s ! (length xs + 1) = c" and prev: "export_order s ! length xs = p"
    by (simp_all add: eo nth_append)
  have new: "order_up p c (remove1 c (export_order s)) = xs @ c # p # ys"
    using move_up_list[OF d] by (simp add: eo)
  have "settled doc (s\<lparr>export_order := xs @ c # p # ys\<rparr>)"
    using st d by (intro settled_reorder) (auto simp: eo)
  then have "on_tree_item_selection_change doc selection (s\<lparr>export_order := xs @ c # p # ys\<rparr>)
               = Returned (s\<lparr>export_order := xs @ c # p # ys\<rparr>)"
    by (rule settled_fixed)
  then show ?thesis
    using len curr prev new by (simp add: on_cell_click_def eo)
qed

lemma click_down:
  assumes st: "settled doc s" and eo: "export_order s = xs @ c # p # ys"
    and row: "length xs = Suc row"
  shows "on_cell_click doc selection row 2 s
           = Returned (s\<lparr>export_order := xs @ p # c # ys\<rparr>)"
proof -
  have c: "consistent s" using st by (simp add: settled_def)
  have d: "distinct (xs @ c # p # ys)" using c eo by (simp add: consistent_def)
  have len: "length (keys (simobjects s)) = length xs + 2 + length ys"
    using consistent_lengths[OF c] eo by simp
  have curr: "export_order s ! (row + 1) = c" and nxt: "export_order s ! (row + 2) = p"
    using row by (simp_all add: eo nth_append)
  have new: "order_down p c (remove1 c (export_order s)) = xs @ p # c # ys"
    using move_down_list[OF d] by (simp add: eo)
  have "settled doc (s\<lparr>export_order := xs @ p # c # ys\<rparr>)"
    using st d by (intro settled_reorder) (auto simp: eo)
  then have "on_tree_item_selection_change doc selection (s\<lparr>export_order := xs @ p # c # ys\<rparr>)
               = Returned (s\<lparr>export_order := xs @ p # c # ys\<rparr>)"
    by (rule settled_fixed)
  then show ?thesis
    using len curr nxt new row by (simp add: on_cell_click_def eo)
qed

lemma click_down_last:
  assumes "consistent s" and "row + 2 = length (export_order s)"
  shows "on_cell_click doc selection row 2 s = Raised IndexError s"
  using assms consistent_lengths[OF assms(1)] by (simp add: on_cell_click_def)

text \<open>
  The round trip away from the boundaries. Let the registry be consistent and settled
  (every entry of \<open>export_order\<close> is a top-level object of the document), with
  \<^verbatim>\<open>Case_Limits\<close> as entry 0, so that table row \<open>row\<close> shows entry \<open>row + 1\<close> of
  \<open>export_order\<close>. If the row is not the first one, a click on ``Move Up'' swaps the entry
  with the one before it, and a click on ``Move Down'' for the same entry (now one row
  higher) restores the state. If the row is not the last one, ``Move Down'' swaps the
  entry with the one after it and ``Move Up'' for the same entry restores the state.
  \<^verbatim>\<open>Case_Limits\<close> stays entry 0 in between. On the last row ``Move Down'' raises
  IndexError before it has written anything: the state is unchanged.
\<close>

lemma up_down_restores:
  assumes "settled doc s" and "export_order s ! 0 = ''Case_Limits''"
  shows "(1 \<le> row \<and> row + 1 < length (export_order s) \<longrightarrow>
            (\<exists>s1. on_cell_click doc selection row 1 s = Returned s1
                 \<and> export_order s1 =
                     take row (export_order s) @ export_order s ! (row + 1)
                       # export_order s ! row # drop (row + 2) (export_order s)
                 \<and> export_order s1 ! 0 = ''Case_Limits''
                 \<and> on_cell_click doc selection (row - 1) 2 s1 = Returned s))
       \<and> (row + 2 < length (export_order s) \<longrightarrow>
            (\<exists>s1. on_cell_click doc selection row 2 s = Returned s1
                 \<and> export_order s1 =
                     take (row + 1) (export_order s) @ export_order s ! (row + 2)
                       # export_order s ! (row + 1) # drop (row + 3) (export_order s)
                 \<and> export_order s1 ! 0 = ''Case_Limits''
                 \<and> on_cell_click doc selection (row + 1) 1 s1 = Returned s))
       \<and> (row + 2 = length (export_order s) \<longrightarrow>
            on_cell_click doc selection row 2 s = Raised IndexError s)"
proof (intro conjI impI)
  assume a: "1 \<le> row \<and> row + 1 < length (export_order s)"
  let ?xs = "take row (export_order s)" and ?p = "export_order s ! row"
  let ?c = "export_order s ! (row + 1)" and ?ys = "drop (row + 2) (export_order s)"
  have eo: "export_order s = ?xs @ ?p # ?c # ?ys" using a by (intro split_at_pair) simp
  have lx: "length ?xs = row" using a by simp
  let ?s1 = "s\<lparr>export_order := ?xs @ ?c # ?p # ?ys\<rparr>"
  have up: "on_cell_click doc selection row 1 s = Returned ?s1"
    using click_up[OF assms(1) eo, of selection] lx by simp
  have st1: "settled doc ?s1"
    using assms(1) eo by (rule settled_swap)
  have lx': "length ?xs = Suc (row - 1)" using a lx by simp
  have "on_cell_click doc selection (row - 1) 2 ?s1 = Returned (?s1\<lparr>export_order := ?xs @ ?p # ?c # ?ys\<rparr>)"
    by (rule click_down[OF st1 _ lx']) simp
  then have down: "on_cell_click doc selection (row - 1) 2 ?s1 = Returned s"
    using eo by simp
  have first: "(?xs @ ?c # ?p # ?ys) ! 0 = ''Case_Limits''"
    using a assms(2) lx by (simp add: nth_append)
  show "\<exists>s1. on_cell_click doc selection row 1 s = Returned s1
                 \<and> export_order s1 = ?xs @ ?c # ?p # ?ys
                 \<and> export_order s1 ! 0 = ''Case_Limits''
                 \<and> on_cell_click doc selection (row - 1) 2 s1 = Returned s"
    using up down first by (intro exI[of _ ?s1]) simp
next
  assume a: "row + 2 < length (export_order s)"
  let ?xs = "take (row + 1) (export_order s)" and ?c = "export_order s ! (row + 1)"
  let ?p = "export_order s ! (row + 2)" and ?ys = "drop (row + 3) (export_order s)"
  have eo: "export_order s = ?xs @ ?c # ?p # ?ys"
    using split_at_pair[of "row + 1" "export_order s"] a by (simp add: numeral_3_eq_3 add.commute)
  have lx: "length ?xs = Suc row" using a by simp
  let ?s1 = "s\<lparr>export_order := ?xs @ ?p # ?c # ?ys\<rparr>"
  have down: "on_cell_click doc selection row 2 s = Returned ?s1"
    by (rule click_down[OF assms(1) eo lx])
  have st1: "settled doc ?s1"
    using assms(1) eo by (rule settled_swap)
  have "on_cell_click doc selection (length ?xs) 1 ?s1 = Returned (?s1\<lparr>export_order := ?xs @ ?c # ?p # ?ys\<rparr>)"
    by (rule click_up[OF st1]) simp
  then have up: "on_cell_click doc selection (row + 1) 1 ?s1 = Returned s"
    using eo lx by simp
  have first: "(?xs @ ?p # ?c # ?ys) ! 0 = ''Case_Limits''"
    using a assms(2) lx by (simp add: nth_append)
  show "\<exists>s1. on_cell_click doc selection row 2 s = Returned s1
                 \<and> export_order s1 = ?xs @ ?p # ?c # ?ys
                 \<and> export_order s1 ! 0 = ''Case_Limits''
                 \<and> on_cell_click doc selection (row + 1) 1 s1 = Returned s"
    using up down first by (intro exI[of _ ?s1]) simp
next
  assume "row + 2 = length (export_order s)"
  then show "on_cell_click doc selection row 2 s = Raised IndexError s"
    using assms(1) by (intro click_down_last) (simp_all add: settled_def)
qed

text \<open>
  The round trip at work on four entries: the third entry is moved up and down again,
  and the last row cannot be moved down.
\<close>

lemma up_down_restores_example:
  "settled [toplevel ''Case_Limits'', toplevel ''A'', toplevel ''B'', toplevel ''C'']
      (registry [''Case_Limits'', ''A'', ''B'', ''C''] [''Case_Limits'', ''A'', ''B'', ''C''])
   \<and> on_cell_click [toplevel ''Case_Limits'', toplevel ''A'', toplevel ''B'', toplevel ''C''] [] 1 1
        (registry [''Case_Limits'', ''A'', ''B'', ''C''] [''Case_Limits'', ''A'', ''B'', ''C''])
      = Returned (registry [''Case_Limits'', ''A'', ''B'', ''C''] [''Case_Limits'', ''B'', ''A'', ''C''])
   \<and> on_cell_click [toplevel ''Case_Limits'', toplevel ''A'', toplevel ''B'', toplevel ''C''] [] 0 2
        (registry [''Case_Limits'', ''A'', ''B'', ''C''] [''Case_Limits'', ''B'', ''A'', ''C''])
      = Returned (registry [''Case_Limits'', ''A'', ''B'', ''C''] [''Case_Limits'', ''A'', ''B'', ''C''])
   \<and> on_cell_click [toplevel ''Case_Limits'', toplevel ''A'', toplevel ''B'', toplevel ''C''] [] 2 2
        (registry [''Case_Limits'', ''A'', ''B'', ''C''] [''Case_Limits'', ''A'', ''B'', ''C''])
      = Raised IndexError
          (registry [''Case_Limits'', ''A'', ''B'', ''C''] [''Case_Limits'', ''A'', ''B'', ''C''])"
proof -
  let ?doc = "[toplevel ''Case_Limits'', toplevel ''A'', toplevel ''B'', toplevel ''C'']"
  let ?s = "registry [''Case_Limits'', ''A'', ''B'', ''C''] [''Case_Limits'', ''A'', ''B'', ''C'']"
  have st: "settled ?doc ?s"
    by (simp add: settled_def consistent_def live_def has_parent_def registry_eval)
  have cl: "export_order ?s ! 0 = ''Case_Limits''" by (simp add: registry_def)
  have up: "on_cell_click ?doc [] 1 1 ?s
      = Returned (registry [''Case_Limits'', ''A'', ''B'', ''C''] [''Case_Limits'', ''B'', ''A'', ''C''])"
    by (simp add: on_cell_click_def registry_eval order_loop.simps Let_def)
  have len: "length (export_order ?s) = 4" by (simp add: registry_def)
  show ?thesis
    using up_down_restores[OF st cl, of 1 "[]"] up_down_restores[OF st cl, of 2 "[]"] st up len
    by simp
qed

text \<open>
  Claim C3 (the code misses it). The boundary clause fails on the first row. Let the
  registry be consistent and settled, with \<^verbatim>\<open>Case_Limits\<close> as entry 0 of \<open>export_order\<close>
  and at least one more entry. The table shows that entry on row 0, without a ``Move
  Up'' label; but \<^verbatim>\<open>cellClicked\<close> comes for every cell, and \<^verbatim>\<open>on_cell_click(0, 1)\<close>
  has no check of its own: it returns with the first exportable entry at position 0 and
  \<^verbatim>\<open>Case_Limits\<close> behind it. The order has changed, and \<^verbatim>\<open>Case_Limits\<close> is no longer the
  first entry, which the handler's own row arithmetic relies on.
\<close>

theorem C3_move_up_on_first_row:
  assumes "settled doc s" and "export_order s = ''Case_Limits'' # a # rest"
  shows "\<exists>s1. on_cell_click doc selection 0 1 s = Returned s1
            \<and> export_order s1 = a # ''Case_Limits'' # rest
            \<and> export_order s1 \<noteq> export_order s
            \<and> export_order s1 ! 0 \<noteq> ''Case_Limits''"
proof -
  have eo: "export_order s = [] @ ''Case_Limits'' # a # rest" using assms(2) by simp
  have "distinct (export_order s)" using assms(1) by (simp add: settled_def consistent_def)
  then have ne: "a \<noteq> ''Case_Limits''" using assms(2) by auto
  have "on_cell_click doc selection (length ([]::string list)) 1 s
          = Returned (s\<lparr>export_order := [] @ a # ''Case_Limits'' # rest\<rparr>)"
    by (rule click_up[OF assms(1) eo])
  then show ?thesis using ne assms(2) by simp
qed

text \<open>
  The theorem at work on three entries: a click on the cell beside the first exportable
  object moves it before \<^verbatim>\<open>Case_Limits\<close>.
\<close>

theorem C3_move_up_on_first_row_witness:
  "settled [toplevel ''Case_Limits'', toplevel ''A'', toplevel ''B'']
      (registry [''Case_Limits'', ''A'', ''B''] [''Case_Limits'', ''A'', ''B''])
   \<and> on_cell_click [toplevel ''Case_Limits'', toplevel ''A'', toplevel ''B''] [] 0 1
        (registry [''Case_Limits'', ''A'', ''B''] [''Case_Limits'', ''A'', ''B''])
      = Returned (registry [''Case_Limits'', ''A'', ''B''] [''A'', ''Case_Limits'', ''B''])
   \<and> export_order (registry [''Case_Limits'', ''A'', ''B''] [''A'', ''Case_Limits'', ''B''])
      = [''A'', ''Case_Limits'', ''B'']"
proof -
  let ?doc = "[toplevel ''Case_Limits'', toplevel ''A'', toplevel ''B'']"
  let ?s = "registry [''Case_Limits'', ''A'', ''B''] [''Case_Limits'', ''A'', ''B'']"
  have st: "settled ?doc ?s"
    by (simp add: settled_def consistent_def live_def has_parent_def registry_eval)
  have eo: "export_order ?s = ''Case_Limits'' # ''A'' # [''B'']" by (simp add: registry_def)
  have click: "on_cell_click ?doc [] 0 1 ?s
      = Returned (registry [''Case_Limits'', ''A'', ''B''] [''A'', ''Case_Limits'', ''B''])"
    by (simp add: on_cell_click_def registry_eval order_loop.simps Let_def)
  show ?thesis
    using C3_move_up_on_first_row[OF st eo, of "[]"] st click by (simp add: registry_def)
qed

section \<open>The log reader\<close>

lemmas monitor_eval = on_fs_change_def current_value_def update_eta_def update_partsout_def
  py_split_def item_def last_item_def

text \<open>The numerals of the examples, read and rounded to binary64.\<close>

lemma float_read:
  "py_float ''10.0\<newline>'' = Inr (Fl 10)"
  "py_float ''5.00'' = Inr (Fl 5)"
  "py_float ''Part_0005.00'' = Inl ValueError"
  "py_float ''0.07'' = Inr (Fl (1261007895663739 / 2 ^ 54))"
  by code_simp+

lemma binary64_exact:
  "binary64 500 = Fl 500"
  "binary64 50 = Fl 50"
  "binary64 (- 500) = Fl (- 500)"
  by code_simp+

text \<open>
  The product is rounded as the machine rounds it: \<^verbatim>\<open>0.07 * 100\<close> is not 7 but the next
  binary64 number above it, which Python prints as \<^verbatim>\<open>7.000000000000001\<close>.
\<close>

lemma product_rounded:
  "fl_mul (Fl (1261007895663739 / 2 ^ 54)) (Fl 100) = Fl (7 + 1 / 2 ^ 50)"
  by code_simp

lemma split_from_nonempty: "split_from sep cur s \<noteq> []"
  by (induction sep cur s rule: split_from.induct) auto

lemma py_split_nonempty: "py_split sep s \<noteq> []"
  by (simp add: py_split_def split_from_nonempty)

lemma timemax_loop_no_line:
  "\<forall>l\<in>set ls. \<not> substr_in ''TimeMax='' l \<Longrightarrow> timemax_loop ls s = Returned s"
  by (induction ls) auto

lemma update_eta_fields:
  "run_progbar_bar (update_eta l s) = run_progbar_bar s"
  "timemax (update_eta l s) = timemax s"
  "run_dialog_title (update_eta l s) = run_dialog_title s"
  by (simp_all add: update_eta_def Let_def)

lemma div_by_unset:
  "fl_div x (Fl (- 1)) =
     Inr (case x of Fl a \<Rightarrow> binary64 (- a) | Infty p \<Rightarrow> Infty (\<not> p) | NaN \<Rightarrow> NaN)"
  by (cases x) auto

text \<open>
  Claim C4, as amended. For the log of the line \<^verbatim>\<open>TimeMax=10.0\<close> followed by the last line
  \<^verbatim>\<open>Part_0005 5.00  ...  0.01234 - 00:01:02\<close>, in which the time stands after a blank as
  the solver writes it, and a state in which \<open>timemax\<close> is still \<open>-1\<close>,
  \<^verbatim>\<open>on_fs_change\<close> sets \<open>timemax\<close> to 10 and the progress to exactly 50, that is
  \<open>(5.00 * 100) / 10.0\<close>: the number is the text after the last blank before the first
  dot, with two digits after the dot.
\<close>

theorem C4_progress_example:
  assumes "timemax s = Fl (- 1)"
  shows "on_fs_change (Some [''TimeMax=10.0\<newline>'', ''Part_0005 5.00  ...  0.01234 - 00:01:02'']) s
           = Returned (s\<lparr>timemax := Fl 10, run_progbar_bar := Fl 50,
                         run_dialog_title := TitlePercent (Fl 50),
                         run_group_label_eta :=
                           ''Estimated time to complete simulation: 0.01234 - 00:01:02''\<rparr>)"
  using assms by (simp add: monitor_eval float_read binary64_exact)

text \<open>The theorem at work on a new case.\<close>

theorem C4_progress_example_witness:
  "timemax new_case = Fl (- 1)
   \<and> run_progbar_bar (state_of (on_fs_change
        (Some [''TimeMax=10.0\<newline>'', ''Part_0005 5.00  ...  0.01234 - 00:01:02'']) new_case)) = Fl 50
   \<and> raised (on_fs_change
        (Some [''TimeMax=10.0\<newline>'', ''Part_0005 5.00  ...  0.01234 - 00:01:02'']) new_case) = None"
proof -
  have t: "timemax new_case = Fl (- 1)" by (simp add: new_case_def)
  show ?thesis using C4_progress_example[OF t] t by simp
qed

text \<open>
  Claim C4 as stated fails: on the line \<^verbatim>\<open>Part_0005.00  ...\<close> the text before the first
  dot is \<^verbatim>\<open>Part_0005\<close>, it holds no blank, and \<^verbatim>\<open>float("Part_0005.00")\<close> raises
  ValueError after \<open>timemax\<close> has been set; no progress is computed.
\<close>

theorem C4_counterexample:
  "on_fs_change (Some [''TimeMax=10.0\<newline>'', ''Part_0005.00  ...  0.01234 - 00:01:02'']) new_case
     = Raised ValueError (new_case\<lparr>timemax := Fl 10\<rparr>)
   \<and> py_float ''Part_0005.00'' = Inl ValueError"
  by (simp add: monitor_eval float_read new_case_def)

text \<open>
  Claim C5, as amended. Let \<open>timemax\<close> be \<open>-1\<close>, let no line of the log hold
  \<^verbatim>\<open>TimeMax=\<close>, and let the last line hold \<^verbatim>\<open>Part_\<close> before its first dot and a number
  \<open>x\<close> where \<^verbatim>\<open>on_fs_change\<close> reads one. Then the handler raises nothing: it carries out
  the division of \<open>x * 100\<close> by the unset denominator \<open>-1\<close> and shows the quotient as the
  progress; \<open>timemax\<close> stays \<open>-1\<close>.
\<close>

theorem C5_unset_denominator_divides:
  assumes "timemax s = Fl (- 1)"
    and "\<forall>l\<in>set run_file_data. \<not> substr_in ''TimeMax='' l"
    and "run_file_data \<noteq> []"
    and "substr_in ''Part_'' (last run_file_data)"
    and "substr_in ''Part_'' (hd (py_split ''.'' (last run_file_data)))"
    and "item (py_split ''.'' (last run_file_data)) 1 = Inr decimals"
    and "py_float (last (py_split '' '' (hd (py_split ''.'' (last run_file_data))))
                     @ ''.'' @ take 2 decimals) = Inr x"
  shows "\<exists>s' v. on_fs_change (Some run_file_data) s = Returned s'
           \<and> fl_div (fl_mul x (Fl 100)) (timemax s) = Inr v
           \<and> run_progbar_bar s' = v \<and> run_dialog_title s' = TitlePercent v
           \<and> timemax s' = Fl (- 1)"
proof -
  let ?line = "last run_file_data"
  let ?v = "case fl_mul x (Fl 100) of Fl a \<Rightarrow> binary64 (- a) | Infty p \<Rightarrow> Infty (\<not> p) | NaN \<Rightarrow> NaN"
  have loop: "timemax_loop run_file_data s = Returned s"
    using assms(2) by (rule timemax_loop_no_line)
  have li: "last_item run_file_data = Inr ?line"
    using assms(3) by (simp add: last_item_def)
  have whole: "last_item (py_split '' '' (hd (py_split ''.'' ?line)))
                 = Inr (last (py_split '' '' (hd (py_split ''.'' ?line))))"
    by (simp add: last_item_def py_split_nonempty)
  have dv: "fl_div (fl_mul x (Fl 100)) (Fl (- 1)) = Inr ?v"
    by (rule div_by_unset)
  have cv: "current_value (py_split ''.'' ?line) (Fl (- 1)) = Inr ?v"
    using whole assms(6,7) dv by (simp add: current_value_def)
  have run: "on_fs_change (Some run_file_data) s =
          Returned (update_eta ?line (s\<lparr>run_progbar_bar := ?v, run_dialog_title := TitlePercent ?v\<rparr>))"
    using loop li cv assms(1,4,5) by (simp add: on_fs_change_def Let_def)
  show ?thesis
    using run dv assms(1) by (simp add: update_eta_fields)
qed

text \<open>The theorem at work on a new case and a line as the solver writes it.\<close>

theorem C5_unset_denominator_divides_witness:
  "timemax new_case = Fl (- 1)
   \<and> substr_in ''Part_''
        ''Part_0005      5.000000         1100      220    12.34  05-04-2016 17:29:03''
   \<and> (\<exists>s'. on_fs_change
          (Some [''Part_0005      5.000000         1100      220    12.34  05-04-2016 17:29:03''])
          new_case = Returned s'
         \<and> run_progbar_bar s' = Fl (- 500) \<and> timemax s' = Fl (- 1))"
proof -
  let ?line = "''Part_0005      5.000000         1100      220    12.34  05-04-2016 17:29:03''"
  have t: "timemax new_case = Fl (- 1)" by (simp add: new_case_def)
  have no: "\<forall>l\<in>set [?line]. \<not> substr_in ''TimeMax='' l" by simp
  have ne: "[?line] \<noteq> []" by simp
  have p1: "substr_in ''Part_'' (last [?line])" by simp
  have p2: "substr_in ''Part_'' (hd (py_split ''.'' (last [?line])))"
    by (simp add: py_split_def)
  have it: "item (py_split ''.'' (last [?line])) 1
              = Inr ''000000         1100      220    12''"
    by (simp add: py_split_def item_def)
  have fl: "py_float (last (py_split '' '' (hd (py_split ''.'' (last [?line]))))
              @ ''.'' @ take 2 ''000000         1100      220    12'') = Inr (Fl 5)"
    by (simp add: py_split_def float_read)
  show ?thesis
    using C5_unset_denominator_divides[OF t no ne p1 p2 it fl] t p1
    by (auto simp: binary64_exact)
qed

text \<open>
  Claim C5 as stated fails: with no \<^verbatim>\<open>TimeMax=\<close> line and \<open>timemax\<close> at \<open>-1\<close> the
  handler returns normally and shows the progress \<open>(5.00 * 100) / -1 = -500\<close>, a value that
  binary64 holds exactly.
\<close>

theorem C5_counterexample:
  "on_fs_change
      (Some [''Part_0005      5.000000         1100      220    12.34  05-04-2016 17:29:03''])
      new_case
     = Returned (new_case\<lparr>run_progbar_bar := Fl (- 500),
                  run_dialog_title := TitlePercent (Fl (- 500)),
                  run_group_label_eta :=
                    ''Estimated time to complete simulation: 05-04-2016 17:29:03''\<rparr>)
   \<and> timemax new_case = Fl (- 1)"
  by (simp add: monitor_eval float_read binary64_exact new_case_def)

text \<open>
  Claim C7 (the code misses it). When \<^verbatim>\<open>Run.out\<close> cannot be read, the handler does not
  return silently: it raises UnboundLocalError. The state is left as it was.
\<close>

theorem C7_unreadable_log_raises:
  "on_fs_change None s = Raised UnboundLocalError s"
  by (simp add: on_fs_change_def)

section \<open>The end of a simulation\<close>

lemma finished_state:
  assumes "current_process s = Process"
  shows "state_of (on_dsph_sim_finished exitCode output s) =
           (let s2 = (removePath (out_dir s) s)
                       \<lparr>run_dialog_title := Title ''DualSPHysics Simulation: Complete'',
                        run_progbar_bar := Fl 100, run_button_cancel := ''Close''\<rparr>
            in if exitCode = 0
               then s2\<lparr>simulation_done := True, widget_state := ''sim finished''\<rparr>
               else if substr_in ''exception'' (lower output)
               then (let s3 = s2\<lparr>run_dialog_title := Title ''DualSPHysics Simulation: Error'',
                                  run_progbar_bar := Fl 0, run_dialog_shown := False,
                                  widget_state := ''sim error''\<rparr>
                     in case item (py_split ''================================'' output) 1 of
                          Inl e \<Rightarrow> s3
                        | Inr details \<Rightarrow> s3\<lparr>execution_error_dialog := Some details\<rparr>)
               else s2)"
  using assms by (simp add: on_dsph_sim_finished_def Let_def split: sum.splits)

lemma finished_raises:
  assumes "current_process s = Process"
  shows "raised (on_dsph_sim_finished exitCode output s) =
           (if exitCode \<noteq> 0 \<and> substr_in ''exception'' (lower output)
            then (case item (py_split ''================================'' output) 1 of
                    Inl e \<Rightarrow> Some e | Inr details \<Rightarrow> None)
            else None)"
  using assms by (simp add: on_dsph_sim_finished_def Let_def split: sum.splits)

text \<open>
  Claim C6. For every running simulation, exit code and output, after
  \<^verbatim>\<open>on_dsph_sim_finished\<close>: the dialog says ``Error'' exactly when the exit code is not 0
  and the output holds \<^verbatim>\<open>exception\<close> in any mix of capitals; it says ``Complete'' in every
  other case, that is for exit code 0 and also for another exit code without that word;
  the progress is 100 in the ``Complete'' case; \<^verbatim>\<open>simulation_done\<close> is set exactly when
  the exit code is 0. In the ``Complete'' case the slot raises nothing. (In the ``Error''
  case it may raise IndexError while it fills the detail text, after the widgets have
  been set.)
\<close>

theorem C6_exit_code_decides:
  assumes "running s"
  shows "(run_dialog_title (state_of (on_dsph_sim_finished exitCode output s))
            = Title ''DualSPHysics Simulation: Error''
          \<longleftrightarrow> exitCode \<noteq> 0 \<and> substr_in ''exception'' (lower output))
       \<and> (run_dialog_title (state_of (on_dsph_sim_finished exitCode output s))
            = Title ''DualSPHysics Simulation: Complete''
          \<longleftrightarrow> exitCode = 0 \<or> \<not> substr_in ''exception'' (lower output))
       \<and> run_progbar_bar (state_of (on_dsph_sim_finished exitCode output s))
            = (if exitCode = 0 \<or> \<not> substr_in ''exception'' (lower output) then Fl 100 else Fl 0)
       \<and> (simulation_done (state_of (on_dsph_sim_finished exitCode output s)) \<longleftrightarrow> exitCode = 0)
       \<and> (if exitCode = 0 \<or> \<not> substr_in ''exception'' (lower output)
          then raised (on_dsph_sim_finished exitCode output s) = None
          else widget_state (state_of (on_dsph_sim_finished exitCode output s)) = ''sim error'')"
proof -
  have p: "current_process s = Process" and d: "\<not> simulation_done s"
    using assms by (simp_all add: running_def)
  show ?thesis
    unfolding finished_state[OF p] finished_raises[OF p]
    using d by (simp add: Let_def removePath_def split: sum.splits)
qed

text \<open>
  The theorem at work on a started simulation: exit code 0, exit code 1 with the word in
  the output, and exit code 1 without it.
\<close>

theorem C6_exit_code_decides_witness:
  "running started
   \<and> run_dialog_title (state_of (on_dsph_sim_finished 0 ''Finished execution'' started))
       = Title ''DualSPHysics Simulation: Complete''
   \<and> run_progbar_bar (state_of (on_dsph_sim_finished 0 ''Finished execution'' started)) = Fl 100
   \<and> simulation_done (state_of (on_dsph_sim_finished 0 ''Finished execution'' started))
   \<and> run_dialog_title (state_of (on_dsph_sim_finished 1 ''*** Exception (no GPU)'' started))
       = Title ''DualSPHysics Simulation: Error''
   \<and> run_dialog_title (state_of (on_dsph_sim_finished 1 ''Killed'' started))
       = Title ''DualSPHysics Simulation: Complete''
   \<and> \<not> simulation_done (state_of (on_dsph_sim_finished 1 ''Killed'' started))"
proof -
  have r: "running started" by (simp add: running_def started_def out_dir_def new_case_def)
  have a: "\<not> substr_in ''exception'' (lower ''Finished execution'')"
    and b: "substr_in ''exception'' (lower ''*** Exception (no GPU)'')"
    and c: "\<not> substr_in ''exception'' (lower ''Killed'')"
    by (simp_all add: lower_def char_lower_def)
  show ?thesis
    using C6_exit_code_decides[OF r, of 0 "''Finished execution''"]
      C6_exit_code_decides[OF r, of 1 "''*** Exception (no GPU)''"]
      C6_exit_code_decides[OF r, of 1 "''Killed''"] r a b c
    by simp
qed

section \<open>Cancelling a simulation\<close>


lemma start_connects:
  "on_cancel_connections (state_of (on_ex_simulate listing processor process_running s))
     = Suc (on_cancel_connections s)"
  by (simp add: on_ex_simulate_def Let_def addPath_def removePath_def split: option.splits)

lemma first_start:
  "on_ex_simulate (Some []) ''CPU'' True new_case = Returned started"
  by (simp add: on_ex_simulate_def Let_def addPath_def final_params_ex_def out_dir_def
      started_def new_case_def lower_def char_lower_def)

lemma start_running:
  "on_ex_simulate (Some files) processor True s = Returned s' \<Longrightarrow> running s'"
  by (auto simp: on_ex_simulate_def Let_def addPath_def running_def out_dir_def split: if_splits)










section \<open>The arguments of the exporter\<close>

lemma scan_parts_fields:
  "scan_parts fs s = Returned s' \<Longrightarrow>
     calls s' = calls s \<and> partvtk4_path s' = partvtk4_path s
     \<and> project_path s' = project_path s \<and> project_name s' = project_name s
     \<and> export_options s' = export_options s
     \<and> additional_parameters s' = additional_parameters s"
proof (induction fs arbitrary: s)
  case Nil
  then show ?case by simp
next
  case (Cons filename rest)
  then obtain n where "scan_parts rest (s\<lparr>total_export_parts := n\<rparr>) = Returned s'"
    by (auto split: sum.splits)
  from Cons.IH[OF this] show ?case by simp
qed

lemma export_arguments:
  assumes "on_export partfiles s = Returned s'"
  shows "calls s' = calls s @ [Start (partvtk4_path s)
           ([''-dirin '' @ project_path s @ ''/'' @ project_name s @ ''_Out/'',
             ''-savevtk '' @ project_path s @ ''/'' @ project_name s @ ''_Out/PartAll'']
            @ (if length (export_options s) < 2 then []
               else py_split '' '' (additional_parameters s)))]"
proof -
  let ?s0 = "s\<lparr>widget_state := ''export start'', export_button := ''Exporting...''\<rparr>"
  obtain s1 where s1: "scan_parts partfiles ?s0 = Returned s1"
    using assms by (auto simp: on_export_def split: outcome.splits)
  have "calls s' = calls s1 @ [Start (partvtk4_path s1) (static_params_exp s1 @ additional_params_exp s1)]"
    using assms s1 by (auto simp: on_export_def)
  then show ?thesis
    using scan_parts_fields[OF s1]
    by (simp add: static_params_exp_def additional_params_exp_def)
qed

text \<open>
  Claim C9 (the code misses it). With export options \<^verbatim>\<open>-onlytype:-bound\<close> and
  simulation parameters \<^verbatim>\<open>-cellmode:h\<close> stored, \<^verbatim>\<open>on_export\<close> starts the exporter with the
  two directory arguments followed by \<^verbatim>\<open>-cellmode:h\<close>: the export options only decide
  whether extra arguments are passed, the arguments themselves are the simulation's
  \<^verbatim>\<open>additional_parameters\<close>.
\<close>

theorem C9_export_takes_simulation_parameters:
  "calls (state_of (on_export [''/home/user/dam/dam_Out/Part_0001.bi4'']
       (new_case\<lparr>export_options := ''-onlytype:-bound'',
                  additional_parameters := ''-cellmode:h''\<rparr>)))
     = [Start ''/opt/dsph/PartVTK4_linux64''
          [''-dirin /home/user/dam/dam_Out/'', ''-savevtk /home/user/dam/dam_Out/PartAll'',
           ''-cellmode:h'']]
   \<and> raised (on_export [''/home/user/dam/dam_Out/Part_0001.bi4'']
       (new_case\<lparr>export_options := ''-onlytype:-bound'',
                  additional_parameters := ''-cellmode:h''\<rparr>)) = None"
  by (simp add: on_export_def static_params_exp_def additional_params_exp_def new_case_def
        py_int_def py_literals)

section \<open>The importer's constants\<close>

lemma assign_all_append:
  "assign_all raw (xs @ ys) fil =
     (case assign_all raw xs fil of Inl e \<Rightarrow> Inl e | Inr f \<Rightarrow> assign_all raw ys f)"
  by (induction xs arbitrary: fil) (auto split: sum.splits)

lemma convert_is_true:
  "convert is_true v = Inr x \<Longrightarrow> \<exists>a. v = JStr a \<and> x = PBool (lower a = ''true'')"
  by (cases v) auto

lemma case_constants_end:
  "case_constants = take 21 case_constants
     @ [Assign ''massfluid_auto'' (constant_path ''massbound'' ''@auto'') is_true,
        Assign ''dp'' [''case'', ''casedef'', ''geometry'', ''definition'', ''@dp''] to_float]"
  by (simp add: case_constants_def)

lemma constants_massfluid_auto:
  assumes "assign_all raw case_constants Map.empty = Inr fil1"
  shows "\<exists>a. lookup raw (constant_path ''massbound'' ''@auto'') = Inr (JStr a)
             \<and> fil1 ''massfluid_auto'' = Some (PBool (lower a = ''true''))"
proof -
  let ?A = "Assign ''massfluid_auto'' (constant_path ''massbound'' ''@auto'') is_true"
  let ?D = "Assign ''dp'' [''case'', ''casedef'', ''geometry'', ''definition'', ''@dp''] to_float"
  have "assign_all raw (take 21 case_constants @ [?A, ?D]) Map.empty = Inr fil1"
    using assms case_constants_end by simp
  then obtain f0 where rest: "assign_all raw [?A, ?D] f0 = Inr fil1"
    by (auto simp: assign_all_append split: sum.splits)
  then obtain f1 where a: "assign raw ?A f0 = Inr f1" and d: "assign raw ?D f1 = Inr fil1"
    by (auto split: sum.splits)
  from a obtain v x where v: "lookup raw (constant_path ''massbound'' ''@auto'') = Inr v"
    and x: "convert is_true v = Inr x" and f1: "f1 = f0(''massfluid_auto'' \<mapsto> x)"
    by (auto split: sum.splits)
  from d obtain y where "fil1 = f1(''dp'' \<mapsto> y)"
    by (auto split: sum.splits)
  then have "fil1 ''massfluid_auto'' = Some x" using f1 by simp
  then show ?thesis using v convert_is_true[OF x] by auto
qed

lemma parameter_step_untouched:
  assumes "parameter_step p fil = Inr fil'" and "k \<notin> set (parameter_targets p)"
  shows "fil' k = fil k"
  using assms
  by (auto simp: parameter_step_def parameter_targets_def
           split: sum.splits json.splits if_splits)

lemma parameter_loop_untouched:
  "parameter_loop ps fil = Inr fil' \<Longrightarrow> k \<notin> set (concat (map parameter_targets ps))
   \<Longrightarrow> fil' k = fil k"
proof (induction ps arbitrary: fil)
  case Nil
  then show ?case by simp
next
  case (Cons p ps)
  then obtain f1 where s: "parameter_step p fil = Inr f1" and l: "parameter_loop ps f1 = Inr fil'"
    by (auto split: sum.splits)
  have "fil' k = f1 k" using Cons.IH[OF l] Cons.prems(2) by simp
  also have "\<dots> = fil k" using parameter_step_untouched[OF s] Cons.prems(2) by simp
  finally show ?case .
qed

lemma store_mk_used_untouched:
  "store_mk_used key found fil = Inr fil' \<Longrightarrow> k \<noteq> key \<Longrightarrow> fil' k = fil k"
  by (auto simp: store_mk_used_def split: option.splits error.splits)

text \<open>
  Claim C10, as amended. For every input on which \<^verbatim>\<open>filter_data\<close> returns and in which
  no execution parameter is written to the key \<^verbatim>\<open>massfluid_auto\<close> (none is named
  \<^verbatim>\<open>massfluid_auto\<close>, or \<^verbatim>\<open>massfluid\<close> with a \<^verbatim>\<open>#\<close>, in any mix of capitals), the
  returned \<^verbatim>\<open>massfluid_auto\<close> is read from the \<^verbatim>\<open>auto\<close> attribute of the \<^verbatim>\<open>massbound\<close>
  element: it is true exactly when that attribute is \<^verbatim>\<open>true\<close> in small letters. The
  \<^verbatim>\<open>auto\<close> attribute of \<^verbatim>\<open>massfluid\<close> is not read at all.
\<close>

theorem C10_massfluid_auto_from_massbound:
  assumes "filter_data raw = Inr fil"
    and "''massfluid_auto'' \<notin> set (written_by_parameters raw)"
  shows "\<exists>a. lookup raw [''case'', ''casedef'', ''constantsdef'', ''massbound'', ''@auto''] = Inr (JStr a)
             \<and> fil ''massfluid_auto'' = Some (PBool (lower a = ''true''))"
proof -
  from assms(1) obtain fil1 execution_parameters parameters fil2 app fil3
    where c: "assign_all raw case_constants Map.empty = Inr fil1"
      and e: "lookup raw [''case'', ''execution'', ''parameters'', ''parameter''] = Inr execution_parameters"
      and i: "iterate execution_parameters = Inr parameters"
      and l: "parameter_loop parameters fil1 = Inr fil2"
      and b: "store_mk_used ''mkboundused'' (mk_used raw ''setmkbound'')
                (fil2(''project_name'' \<mapsto> PRaw app, ''mkboundused'' \<mapsto> PInts [],
                      ''mkfluidused'' \<mapsto> PInts [])) = Inr fil3"
      and f: "store_mk_used ''mkfluidused'' (mk_used raw ''setmkfluid'') fil3 = Inr fil"
    unfolding filter_data_def by (auto split: sum.splits)
  have "''massfluid_auto'' \<notin> set (concat (map parameter_targets parameters))"
    using assms(2) e i by (simp add: written_by_parameters_def)
  then have "fil2 ''massfluid_auto'' = fil1 ''massfluid_auto''"
    by (rule parameter_loop_untouched[OF l])
  moreover have "fil3 ''massfluid_auto'' = fil2 ''massfluid_auto''"
    using store_mk_used_untouched[OF b, of "''massfluid_auto''"] by simp
  moreover have "fil ''massfluid_auto'' = fil3 ''massfluid_auto''"
    using store_mk_used_untouched[OF f, of "''massfluid_auto''"] by simp
  ultimately have "fil ''massfluid_auto'' = fil1 ''massfluid_auto''" by simp
  then show ?thesis
    using constants_massfluid_auto[OF c] by (simp add: constant_path_def)
qed

lemmas importer_eval =
  filter_data_def case_constants_def constant_path_def case_file_def valued_def parameter_def
  subscript_def iterate_def parameter_step_def mk_used_def mk_of_def store_mk_used_def
  written_by_parameters_def parameter_targets_def returned_entry_def
  py_int_def py_float_def py_literals

text \<open>
  The theorem at work: \<^verbatim>\<open>massbound\<close> has \<^verbatim>\<open>auto="True"\<close>, \<^verbatim>\<open>massfluid\<close> has
  \<^verbatim>\<open>auto="false"\<close>, and the returned \<^verbatim>\<open>massfluid_auto\<close> is true.
\<close>

theorem C10_massfluid_auto_from_massbound_witness:
  "''massfluid_auto'' \<notin> set (written_by_parameters
       (case_file ''True'' ''false'' [parameter ''TimeMax'' ''1.5'', parameter ''#DtIni'' ''0.0001'']))
   \<and> lookup (case_file ''True'' ''false'' [parameter ''TimeMax'' ''1.5'', parameter ''#DtIni'' ''0.0001''])
        [''case'', ''casedef'', ''constantsdef'', ''massfluid'', ''@auto''] = Inr (JStr ''false'')
   \<and> (\<exists>fil. filter_data
          (case_file ''True'' ''false'' [parameter ''TimeMax'' ''1.5'', parameter ''#DtIni'' ''0.0001''])
          = Inr fil
        \<and> fil ''massfluid_auto'' = Some (PBool True))"
proof -
  let ?raw = "case_file ''True'' ''false'' [parameter ''TimeMax'' ''1.5'', parameter ''#DtIni'' ''0.0001'']"
  have w: "''massfluid_auto'' \<notin> set (written_by_parameters ?raw)"
    by (simp add: importer_eval)
  have mf: "lookup ?raw [''case'', ''casedef'', ''constantsdef'', ''massfluid'', ''@auto''] = Inr (JStr ''false'')"
    by (simp add: importer_eval)
  have mb: "lookup ?raw [''case'', ''casedef'', ''constantsdef'', ''massbound'', ''@auto''] = Inr (JStr ''True'')"
    by (simp add: importer_eval)
  have "\<exists>fil. filter_data ?raw = Inr fil"
    by (simp add: importer_eval)
  then obtain fil where r: "filter_data ?raw = Inr fil" ..
  have "fil ''massfluid_auto'' = Some (PBool True)"
    using C10_massfluid_auto_from_massbound[OF r w] mb by (simp add: lower_def char_lower_def)
  then show ?thesis using w mf r by blast
qed

text \<open>
  Claim C10 as stated fails on a file with two execution parameters, one of them
  \<^verbatim>\<open>#MassFluid\<close>: the loop over the parameters writes \<^verbatim>\<open>massfluid_auto = True\<close> after
  the constants have been read, although \<^verbatim>\<open>massbound\<close> has \<^verbatim>\<open>auto="false"\<close>.
\<close>

theorem C10_counterexample:
  "returned_entry
      (filter_data (case_file ''false'' ''false''
         [parameter ''TimeMax'' ''1.5'', parameter ''#MassFluid'' ''1'']))
      ''massfluid_auto'' = Some (PBool True)
   \<and> lookup (case_file ''false'' ''false''
         [parameter ''TimeMax'' ''1.5'', parameter ''#MassFluid'' ''1''])
        [''case'', ''casedef'', ''constantsdef'', ''massbound'', ''@auto''] = Inr (JStr ''false'')
   \<and> lower ''false'' \<noteq> ''true''"
  by (simp add: importer_eval)

end
